theory Spec2Isabelle
  imports Complex_Main
begin

section \<open>Data model\<close>

text \<open>
  The program is a browser client of a hosted relational store. The tables it touches are
  declared in \<^verbatim>\<open>supabase/migrations/20251123130828_create_nfc_transaction_system.sql\<close>;
  the services in \<^verbatim>\<open>src/services\<close> read and write them, and the payment form
  (\<^verbatim>\<open>NFCPayment.handlePayment\<close>) drives the services.

  Conventions of the embedding:
  \<^item> identifiers the store generates (uuid) are natural numbers, the position of the row in
    its table; user ids, device uids and merchant ids are strings as in the source;
  \<^item> an amount in the store (SQL numeric) is an exact real number; an amount in the program
    (a JavaScript number) is a real number that is a binary64 value, and arithmetic on it
    rounds (section \<open>JavaScript numbers\<close>);
  \<^item> timestamps are integers, milliseconds since the epoch; every clock read of one request
    returns the same instant \<open>now\<close>;
  \<^item> the failed-authentication counter is a natural number: the column defaults to 0, the
    code writes 0 or a successor, and a null counter reads as 0 (\<^verbatim>\<open>|| 0\<close>);
  \<^item> the free-text description and metadata of a security log are left out;
  \<^item> every call to the store can fail: \<open>fails env c\<close> says whether the call made at the
    call site \<open>c\<close> returns an error. A failed write changes nothing.
\<close>

type_synonym uid = string
type_synonym timestamp = int

datatype user_status = Active | Suspended | Locked

datatype tx_status = Pending | Approved | Declined | Failed

datatype severity = Low | Medium | High | Critical

record user_row =
  email :: string
  pin_hash :: string
  daily_limit :: "real option"
  status :: user_status
  failed_auth_attempts :: nat
  last_failed_auth :: "timestamp option"

record NFCDevice =
  dev_id :: nat
  dev_userId :: uid
  deviceUid :: string
  deviceName :: string
  isActive :: bool
  lastUsed :: "timestamp option"

record tx_row =
  tx_id :: nat
  user_id :: uid
  device_id :: nat
  amount :: real
  currency :: string
  merchant_id :: string
  merchant_name :: string
  tx_status :: tx_status
  risk_score :: int
  decline_reason :: "string option"
  signature :: string
  created_at :: timestamp

record SecurityLog =
  log_user_id :: uid
  event_type :: string
  log_severity :: severity

text \<open>The steps of a payment, in the vocabulary of the specification.\<close>

datatype step =
  PinVerification | DeviceResolution | RiskScoring | AccountStatusCheck | DailyLimitCheck
  | StatusDecision | Persistence | AuditEmission | DeviceLastUsed

text \<open>
  The state of the store. \<open>trace\<close> is a ghost field: it lists the steps a run has entered,
  in order. No function reads it.
\<close>

record world =
  users :: "uid \<Rightarrow> user_row option"
  nfc_devices :: "NFCDevice list"
  transactions :: "tx_row list"
  security_logs :: "SecurityLog list"
  trace :: "step list"

text \<open>The call sites of the store, one per \<^verbatim>\<open>supabase.from(...)\<close> expression.\<close>

datatype call =
  VerifyPinSelect | IncrementSelect | IncrementUpdate | ResetUpdate | AuthLogInsert
  | RegisterInsert | NfcLogInsert | UserDevicesSelect | OwnershipSelect
  | RecentSelect | DailyTotalSelect | AccountStatusSelect | DailyLimitSelect
  | TransactionInsert | TxLogInsert | DeviceTouchUpdate

datatype error =
  InvalidPin | NfcReadFailed | AccountInactive | DailyLimitExceeded | AuthFailed
  | StoreError call

text \<open>
  What a request takes from outside the store: the clock (\<open>now\<close>, and \<open>todayStart\<close>, the
  local midnight before it), the outcome of each store call, and the two SHA-256 digests of
  \<^verbatim>\<open>lib/crypto.ts\<close>, which are parameters here.
\<close>

record env =
  now :: timestamp
  todayStart :: timestamp
  fails :: "call \<Rightarrow> bool"
  hashPin :: "string \<Rightarrow> string"
  generateTransactionSignature :: "uid \<Rightarrow> real \<Rightarrow> string \<Rightarrow> timestamp \<Rightarrow> string"

definition mark :: "step \<Rightarrow> world \<Rightarrow> world" where
  "mark s w = w\<lparr>trace := trace w @ [s]\<rparr>"

section \<open>JavaScript numbers\<close>

text \<open>
  A JavaScript number is an IEEE 754 binary64 value. The model keeps the finite ones, as
  the real numbers they denote: 53 significant bits, results rounded to the nearest such
  number, ties to the even significand. The exponent is not bounded: overflow to
  Infinity, subnormal numbers, NaN and the sign of zero are not modelled. (The amount
  field of the form is a required number input with \<^verbatim>\<open>min="0.01"\<close>, and the table
  checks \<^verbatim>\<open>amount > 0\<close>.)
\<close>

text \<open>The integer part of the binary logarithm of a positive natural number.\<close>

fun log2n :: "nat \<Rightarrow> nat" where
  "log2n n = (if n < 2 then 0 else Suc (log2n (n div 2)))"

declare log2n.simps [simp del]

definition pow2 :: "int \<Rightarrow> real" where
  "pow2 e = (if e \<ge> 0 then 2 ^ nat e else 1 / 2 ^ nat (- e))"

text \<open>For \<open>x > 0\<close>, the \<open>e\<close> with \<open>2 ^ e \<le> x < 2 ^ (e + 1)\<close>.\<close>

definition exponent :: "real \<Rightarrow> int" where
  "exponent x =
     (if x \<ge> 1 then int (log2n (nat \<lfloor>x\<rfloor>))
      else - int (Suc (log2n (nat (\<lceil>1 / x\<rceil> - 1)))))"

text \<open>The nearest integer of a non-negative number, the even one of two nearest.\<close>

definition round_even :: "real \<Rightarrow> int" where
  "round_even q =
     (let n = \<lfloor>q\<rfloor>; r = q - of_int n
      in if r < 1 / 2 then n
         else if r > 1 / 2 then n + 1
         else if even n then n else n + 1)"

text \<open>
  \<open>Number x\<close> is the binary64 value nearest to \<open>x\<close>: what a decimal literal, a parsed
  string or a numeric column read through JSON denotes in the program.
\<close>

definition Number :: "real \<Rightarrow> real" where
  "Number x =
     (if x = 0 then 0
      else (let e = exponent \<bar>x\<bar> - 52;
                m = round_even (\<bar>x\<bar> / pow2 e)
            in (if x < 0 then - 1 else 1) * of_int m * pow2 e))"

text \<open>\<^verbatim>\<open>a + b\<close> and \<^verbatim>\<open>a - b\<close> on numbers: the exact result, rounded.\<close>

definition js_add :: "real \<Rightarrow> real \<Rightarrow> real" where
  "js_add a b = Number (a + b)"

definition js_sub :: "real \<Rightarrow> real \<Rightarrow> real" where
  "js_sub a b = Number (a - b)"

section \<open>Store primitives\<close>

text \<open>
  \<^verbatim>\<open>from('users').select(..).eq('id', userId).maybeSingle()\<close>: the row, or nothing when
  the call fails or no row has that id.
\<close>

definition select_user :: "env \<Rightarrow> call \<Rightarrow> uid \<Rightarrow> world \<Rightarrow> user_row option" where
  "select_user env c userId w = (if fails env c then None else users w userId)"

text \<open>\<^verbatim>\<open>from('users').update(..).eq('id', userId)\<close>: no row, no change.\<close>

definition update_user :: "env \<Rightarrow> call \<Rightarrow> uid \<Rightarrow> (user_row \<Rightarrow> user_row) \<Rightarrow> world \<Rightarrow> world" where
  "update_user env c userId f w =
     (if fails env c then w
      else case users w userId of
             None \<Rightarrow> w
           | Some u \<Rightarrow> w\<lparr>users := (users w)(userId := Some (f u))\<rparr>)"

text \<open>
  \<open>logSecurityEvent\<close> is defined once in each service, with the same body; the call site
  tells the copies apart. The result of the insert is not inspected. The table's
  \<^verbatim>\<open>user_id\<close> references \<^verbatim>\<open>users(id)\<close>.
\<close>

definition logSecurityEvent :: "env \<Rightarrow> call \<Rightarrow> uid \<Rightarrow> string \<Rightarrow> severity \<Rightarrow> world \<Rightarrow> world" where
  "logSecurityEvent env c userId eventType sev w =
     (if fails env c then w
      else case users w userId of
             None \<Rightarrow> w
           | Some u \<Rightarrow>
               w\<lparr>security_logs := security_logs w @
                    [\<lparr>log_user_id = userId, event_type = eventType, log_severity = sev\<rparr>]\<rparr>)"

section \<open>authService\<close>

text \<open>
  \<^verbatim>\<open>
  const attempts = (data?.failed_auth_attempts || 0) + 1;
  update({ failed_auth_attempts: attempts, last_failed_auth: now,
           status: attempts >= 5 ? 'locked' : 'active' })
  if (attempts >= 5) logSecurityEvent(userId, 'account_locked', 'critical', ..)
  \<close>
\<close>

definition incrementFailedAuthAttempts :: "env \<Rightarrow> uid \<Rightarrow> world \<Rightarrow> world" where
  "incrementFailedAuthAttempts env userId w =
     (let attempts = (case select_user env IncrementSelect userId w of
                        None \<Rightarrow> 0
                      | Some u \<Rightarrow> failed_auth_attempts u) + 1;
          w1 = update_user env IncrementUpdate userId
                 (\<lambda>u. u\<lparr>failed_auth_attempts := attempts,
                         last_failed_auth := Some (now env),
                         status := (if attempts \<ge> 5 then Locked else Active)\<rparr>) w
      in if attempts \<ge> 5
         then logSecurityEvent env AuthLogInsert userId ''account_locked'' Critical w1
         else w1)"

definition resetFailedAuthAttempts :: "env \<Rightarrow> uid \<Rightarrow> world \<Rightarrow> world" where
  "resetFailedAuthAttempts env userId w =
     update_user env ResetUpdate userId
       (\<lambda>u. u\<lparr>failed_auth_attempts := 0, last_failed_auth := None\<rparr>) w"

text \<open>
  \<open>verifyPin\<close>: a failed read or a missing row logs \<^verbatim>\<open>pin_verification_failed\<close> and
  returns false; a digest that differs increments the counter, logs \<^verbatim>\<open>invalid_pin\<close>
  and returns false; a digest that matches returns true and writes nothing.
\<close>

definition verifyPin :: "env \<Rightarrow> uid \<Rightarrow> string \<Rightarrow> world \<Rightarrow> bool \<times> world" where
  "verifyPin env userId pin w =
     (let pinHash = hashPin env pin
      in case select_user env VerifyPinSelect userId w of
           None \<Rightarrow>
             (False, logSecurityEvent env AuthLogInsert userId
                       ''pin_verification_failed'' Medium w)
         | Some data \<Rightarrow>
             (let isValid = (pin_hash data = pinHash)
              in if isValid then (True, w)
                 else (False, logSecurityEvent env AuthLogInsert userId ''invalid_pin'' High
                                (incrementFailedAuthAttempts env userId w))))"

text \<open>
  \<open>signIn\<close>: the identity provider's answer (\<^verbatim>\<open>supabase.auth.signInWithPassword\<close>) is
  an input: whether it reports an error, and the user it names, if any.
\<close>

definition signIn :: "env \<Rightarrow> bool \<Rightarrow> uid option \<Rightarrow> world \<Rightarrow> (error + unit) \<times> world" where
  "signIn env authError authUser w =
     (if authError
      then (case authUser of
              Some userId \<Rightarrow> (Inl AuthFailed, incrementFailedAuthAttempts env userId w)
            | None \<Rightarrow> (Inl AuthFailed, w))
      else (case authUser of
              Some userId \<Rightarrow>
                (Inr (), logSecurityEvent env AuthLogInsert userId ''user_signin'' Low
                           (resetFailedAuthAttempts env userId w))
            | None \<Rightarrow> (Inr (), w)))"

section \<open>nfcService\<close>

text \<open>
  \<open>registerNFCDevice\<close> inserts the device and throws when the insert fails. The table
  declares \<^verbatim>\<open>device_uid text UNIQUE\<close> and \<^verbatim>\<open>user_id REFERENCES users(id)\<close>, so the
  insert also fails when the uid is taken or the user row is missing. New rows are active
  (\<^verbatim>\<open>is_active: true\<close>).
\<close>

definition registerNFCDevice ::
    "env \<Rightarrow> uid \<Rightarrow> string \<Rightarrow> string \<Rightarrow> world \<Rightarrow> (error + NFCDevice) \<times> world" where
  "registerNFCDevice env userId duid name w =
     (if fails env RegisterInsert
       then (Inl (StoreError RegisterInsert), w)
      else if list_ex (\<lambda>d. deviceUid d = duid) (nfc_devices w)
       then (Inl (StoreError RegisterInsert), w)
      else if users w userId = None
       then (Inl (StoreError RegisterInsert), w)
      else
        (let data = \<lparr>dev_id = length (nfc_devices w), dev_userId = userId, deviceUid = duid,
                      deviceName = name, isActive = True, lastUsed = None\<rparr>;
             w1 = w\<lparr>nfc_devices := nfc_devices w @ [data]\<rparr>
         in (Inr data, logSecurityEvent env NfcLogInsert userId ''nfc_device_registered'' Low w1)))"

text \<open>\<open>getUserDevices\<close>: the user's devices, newest first; throws when the read fails.\<close>

definition getUserDevices :: "env \<Rightarrow> uid \<Rightarrow> world \<Rightarrow> error + NFCDevice list" where
  "getUserDevices env userId w =
     (if fails env UserDevicesSelect then Inl (StoreError UserDevicesSelect)
      else Inr (rev (filter (\<lambda>d. dev_userId d = userId) (nfc_devices w))))"

text \<open>
  \<open>verifyDeviceOwnership\<close>:
  \<^verbatim>\<open>if (error || !data) return false; return data.user_id === userId && data.is_active\<close>.
  The payment form never calls it.
\<close>

definition verifyDeviceOwnership :: "env \<Rightarrow> string \<Rightarrow> uid \<Rightarrow> world \<Rightarrow> bool" where
  "verifyDeviceOwnership env duid userId w =
     (if fails env OwnershipSelect then False
      else case find (\<lambda>d. deviceUid d = duid) (nfc_devices w) of
             None \<Rightarrow> False
           | Some data \<Rightarrow> dev_userId data = userId \<and> isActive data)"

text \<open>\<open>updateDeviceLastUsed\<close>: the result of the update is not inspected.\<close>

definition updateDeviceLastUsed :: "env \<Rightarrow> nat \<Rightarrow> world \<Rightarrow> world" where
  "updateDeviceLastUsed env deviceId w =
     (if fails env DeviceTouchUpdate then w
      else w\<lparr>nfc_devices :=
               map (\<lambda>d. if dev_id d = deviceId then d\<lparr>lastUsed := Some (now env)\<rparr> else d)
                   (nfc_devices w)\<rparr>)"

section \<open>transactionService\<close>

record Transaction =
  t_id :: nat
  t_userId :: uid
  t_deviceId :: nat
  t_amount :: real
  t_currency :: string
  t_merchantId :: string
  t_merchantName :: string
  t_status :: tx_status
  t_riskScore :: int
  t_declineReason :: "string option"
  t_createdAt :: timestamp

record TransactionRequest =
  r_userId :: uid
  r_deviceId :: nat
  r_amount :: real
  r_merchantId :: string
  r_merchantName :: string
  r_currency :: "string option"

text \<open>A row as the program receives it: the numeric amount has become a number.\<close>

definition from_json :: "tx_row \<Rightarrow> tx_row" where
  "from_json t = t\<lparr>amount := Number (amount t)\<rparr>"

text \<open>
  \<open>getRecentTransactions\<close>: the user's rows created at or after the cutoff;
  \<^verbatim>\<open>if (error) return []\<close>. The source orders them newest first; rows are appended in
  order of creation, hence \<open>rev\<close>.
\<close>

definition getRecentTransactions :: "env \<Rightarrow> uid \<Rightarrow> int \<Rightarrow> world \<Rightarrow> tx_row list" where
  "getRecentTransactions env userId minutes w =
     (let cutoff = now env - minutes * 60 * 1000
      in if fails env RecentSelect then []
         else rev (map from_json
                (filter (\<lambda>t. user_id t = userId \<and> created_at t \<ge> cutoff) (transactions w))))"

text \<open>
  \<open>getDailyTransactionTotal\<close>: the sum of the user's approved amounts since local midnight,
  \<^verbatim>\<open>data.reduce((sum, t) => sum + Number(t.amount), 0)\<close>, each addition rounded;
  \<^verbatim>\<open>if (error) return 0\<close>. The query has no order: the rows come in table order.
\<close>

definition getDailyTransactionTotal :: "env \<Rightarrow> uid \<Rightarrow> world \<Rightarrow> real" where
  "getDailyTransactionTotal env userId w =
     (if fails env DailyTotalSelect then 0
      else foldl (\<lambda>sum t. js_add sum (Number (amount t))) 0
             (filter (\<lambda>t. user_id t = userId \<and> tx_status t = Approved
                           \<and> created_at t \<ge> todayStart env) (transactions w)))"

text \<open>
  \<open>calculateRiskScore\<close>: \<open>score\<close> is a mutable local of the source; each conditional
  increment is one \<open>let\<close>. The score itself stays a small integer. The amounts are
  numbers: the sum and the difference are rounded, and \<^verbatim>\<open>0.01\<close> is the number nearest
  to one hundredth.
\<close>

definition calculateRiskScore :: "env \<Rightarrow> TransactionRequest \<Rightarrow> world \<Rightarrow> int" where
  "calculateRiskScore env request w =
     (let score = 0;
          recentTransactions = getRecentTransactions env (r_userId request) 5 w;
          score = (if r_amount request > 500 then score + 30 else score);
          score = (if length recentTransactions \<ge> 3 then score + 40 else score);
          dailyTotal = getDailyTransactionTotal env (r_userId request) w;
          score = (if js_add dailyTotal (r_amount request) > 1000 then score + 50 else score);
          isDuplicate = list_ex
            (\<lambda>t. merchant_id t = r_merchantId request
                 \<and> \<bar>js_sub (amount t) (r_amount request)\<bar> < Number (1 / 100)
                 \<and> now env - created_at t < 60000) recentTransactions;
          score = (if isDuplicate then score + 70 else score)
      in min score 100)"

definition determineTransactionStatus :: "int \<Rightarrow> tx_status" where
  "determineTransactionStatus riskScore =
     (if riskScore \<ge> 80 then Declined
      else if riskScore \<ge> 50 then Pending
      else Approved)"

text \<open>
  \<open>checkAccountStatus\<close> throws the store's error when the read fails, and
  \<^verbatim>\<open>'Account is not active'\<close> when there is no row or its status is not active.
  \<open>None\<close> is the normal return.
\<close>

definition checkAccountStatus :: "env \<Rightarrow> uid \<Rightarrow> world \<Rightarrow> error option" where
  "checkAccountStatus env userId w =
     (if fails env AccountStatusSelect then Some (StoreError AccountStatusSelect)
      else case users w userId of
             None \<Rightarrow> Some AccountInactive
           | Some data \<Rightarrow> if status data \<noteq> Active then Some AccountInactive else None)"

text \<open>
  \<open>checkDailyLimit\<close>: \<^verbatim>\<open>const dailyLimit = data?.daily_limit || 1000\<close>; a failed read, a
  missing row, a null limit and a limit of 0 all give 1000. The limit is the number read
  from the numeric column, and \<^verbatim>\<open>dailyTotal + amount\<close> is rounded.
\<close>

definition checkDailyLimit :: "env \<Rightarrow> uid \<Rightarrow> real \<Rightarrow> world \<Rightarrow> error option" where
  "checkDailyLimit env userId amt w =
     (let dailyLimit = (case select_user env DailyLimitSelect userId w of
                          None \<Rightarrow> 1000
                        | Some data \<Rightarrow>
                            (case daily_limit data of
                               None \<Rightarrow> 1000
                             | Some l \<Rightarrow> if Number l = 0 then 1000 else Number l));
          dailyTotal = getDailyTransactionTotal env userId w
      in if js_add dailyTotal amt > dailyLimit then Some DailyLimitExceeded else None)"

text \<open>
  The insert into \<^verbatim>\<open>transactions\<close>. The table checks \<^verbatim>\<open>amount > 0\<close> and that
  \<^verbatim>\<open>user_id\<close> and \<^verbatim>\<open>device_id\<close> reference existing rows; \<^verbatim>\<open>created_at\<close> defaults to
  the time of the insert. The stored row is returned (\<^verbatim>\<open>.select().single()\<close>). The
  amount sent is a number; the column keeps its shortest decimal form, which every later
  read turns into the same number again, so the model stores the number itself.
\<close>

definition insert_transaction :: "env \<Rightarrow> tx_row \<Rightarrow> world \<Rightarrow> (error + tx_row) \<times> world" where
  "insert_transaction env row w =
     (if fails env TransactionInsert then (Inl (StoreError TransactionInsert), w)
      else if amount row \<le> 0 then (Inl (StoreError TransactionInsert), w)
      else if users w (user_id row) = None then (Inl (StoreError TransactionInsert), w)
      else if list_ex (\<lambda>d. dev_id d = device_id row) (nfc_devices w)
       then (let data = row\<lparr>tx_id := length (transactions w), created_at := now env\<rparr>
             in (Inr data, w\<lparr>transactions := transactions w @ [data]\<rparr>))
      else (Inl (StoreError TransactionInsert), w))"

definition toTransaction :: "tx_row \<Rightarrow> Transaction" where
  "toTransaction data =
     \<lparr>t_id = tx_id data, t_userId = user_id data, t_deviceId = device_id data,
      t_amount = Number (amount data), t_currency = currency data,
      t_merchantId = merchant_id data,
      t_merchantName = merchant_name data, t_status = tx_status data,
      t_riskScore = risk_score data, t_declineReason = decline_reason data,
      t_createdAt = created_at data\<rparr>"

text \<open>
  \<open>processTransaction\<close>, in the order of the source: signature, risk score, account status,
  daily limit, status, insert, security log, and the device's last use when approved.
\<close>

definition processTransaction ::
    "env \<Rightarrow> TransactionRequest \<Rightarrow> world \<Rightarrow> (error + Transaction) \<times> world" where
  "processTransaction env request w =
     (let timestamp = now env;
          sig = generateTransactionSignature env (r_userId request) (r_amount request)
                  (r_merchantId request) timestamp;
          w1 = mark RiskScoring w;
          riskScore = calculateRiskScore env request w1;
          w2 = mark AccountStatusCheck w1
      in case checkAccountStatus env (r_userId request) w2 of
           Some e \<Rightarrow> (Inl e, w2)
         | None \<Rightarrow>
            (let w3 = mark DailyLimitCheck w2
             in case checkDailyLimit env (r_userId request) (r_amount request) w3 of
                  Some e \<Rightarrow> (Inl e, w3)
                | None \<Rightarrow>
                   (let w4 = mark StatusDecision w3;
                        st = determineTransactionStatus riskScore;
                        w5 = mark Persistence w4
                    in case insert_transaction env
                              \<lparr>tx_id = 0, user_id = r_userId request,
                               device_id = r_deviceId request, amount = r_amount request,
                               currency = (case r_currency request of
                                             None \<Rightarrow> ''USD''
                                           | Some c \<Rightarrow> if c = [] then ''USD'' else c),
                               merchant_id = r_merchantId request,
                               merchant_name = r_merchantName request,
                               tx_status = st, risk_score = riskScore,
                               decline_reason =
                                 (if st = Declined then Some ''High risk score'' else None),
                               signature = sig, created_at = timestamp\<rparr> w5 of
                         (Inl e, w6) \<Rightarrow> (Inl e, w6)
                       | (Inr data, w6) \<Rightarrow>
                          (let w7 = logSecurityEvent env TxLogInsert (r_userId request)
                                      ''transaction_processed''
                                      (if riskScore > 70 then High else Low)
                                      (mark AuditEmission w6);
                               w8 = (if st = Approved
                                     then updateDeviceLastUsed env (r_deviceId request)
                                            (mark DeviceLastUsed w7)
                                     else w7)
                           in (Inr (toTransaction data), w8)))))"

section \<open>The payment form\<close>

text \<open>Decimal rendering of a number inside a template string.\<close>

fun digits :: "nat \<Rightarrow> string" where
  "digits n =
     (if n < 10 then [char_of (48 + n)]
      else digits (n div 10) @ [char_of (48 + n mod 10)])"

declare digits.simps [simp del]

text \<open>
  What \<open>handlePayment\<close> reads besides the store: the signed-in user (only the id is used),
  the form fields, the component's list of devices, and what \<^verbatim>\<open>readNFCTag()\<close> resolves
  to (\<open>None\<close> when it rejects). \<open>f_amount\<close> is the decimal typed into the amount field;
  \<^verbatim>\<open>parseFloat(amount)\<close> is the number nearest to it.
\<close>

record payment_form =
  f_user :: "uid option"
  f_pin :: string
  f_amount :: real
  f_merchantName :: string
  f_devices :: "NFCDevice list"
  f_tag :: "string option"

text \<open>
  \<open>loadDevices\<close> fills the component's list when the form mounts; a failed read leaves it
  as it was.
\<close>

definition loadDevices :: "env \<Rightarrow> uid option \<Rightarrow> NFCDevice list \<Rightarrow> world \<Rightarrow> NFCDevice list" where
  "loadDevices env usr devices w =
     (case usr of
        None \<Rightarrow> devices
      | Some userId \<Rightarrow>
          (case getUserDevices env userId w of
             Inl e \<Rightarrow> devices
           | Inr userDevices \<Rightarrow> userDevices))"

text \<open>
  \<open>handlePayment\<close>. The result is \<open>None\<close> when nobody is signed in (the handler returns at
  once), \<open>Some (Inl e)\<close> when the \<^verbatim>\<open>catch\<close> block shows an error, and \<open>Some (Inr t)\<close> when
  \<open>processTransaction\<close> returned \<open>t\<close>. The second component is the component's list of
  devices afterwards.
\<close>

definition handlePayment ::
    "env \<Rightarrow> payment_form \<Rightarrow> world \<Rightarrow> (error + Transaction) option \<times> NFCDevice list \<times> world" where
  "handlePayment env ui w =
     (case f_user ui of
        None \<Rightarrow> (None, f_devices ui, w)
      | Some userId \<Rightarrow>
         (case verifyPin env userId (f_pin ui) (mark PinVerification w) of
            (False, w1) \<Rightarrow> (Some (Inl InvalidPin), f_devices ui, w1)
          | (True, w1) \<Rightarrow>
             (let w2 = mark DeviceResolution w1
              in case f_tag ui of
                   None \<Rightarrow> (Some (Inl NfcReadFailed), f_devices ui, w2)
                 | Some duid \<Rightarrow>
                    (case (case find (\<lambda>d. deviceUid d = duid) (f_devices ui) of
                             Some device \<Rightarrow> (Inr device, f_devices ui, w2)
                           | None \<Rightarrow>
                              (case registerNFCDevice env userId duid
                                      (''Device '' @ digits (length (f_devices ui) + 1)) w2 of
                                 (Inl e, w3) \<Rightarrow> (Inl e, f_devices ui, w3)
                               | (Inr device, w3) \<Rightarrow>
                                   (Inr device, f_devices ui @ [device], w3))) of
                       (Inl e, devices, w3) \<Rightarrow> (Some (Inl e), devices, w3)
                     | (Inr device, devices, w3) \<Rightarrow>
                        (case processTransaction env
                                \<lparr>r_userId = userId, r_deviceId = dev_id device,
                                 r_amount = Number (f_amount ui),
                                 r_merchantId = ''MERCH_'' @ digits (nat (now env)),
                                 r_merchantName = f_merchantName ui,
                                 r_currency = Some ''USD''\<rparr> w3 of
                           (r, w4) \<Rightarrow> (Some r, devices, w4))))))"

section \<open>Definitions used in the statements\<close>

subsection \<open>Failed and repeated PIN verification\<close>

text \<open>
  The counter \<open>incrementFailedAuthAttempts\<close> writes: the counter it reads plus one, and
  one when the read fails (\<^verbatim>\<open>(data?.failed_auth_attempts || 0) + 1\<close>).
\<close>

definition attempts_after :: "env \<Rightarrow> user_row \<Rightarrow> nat" where
  "attempts_after env u =
     (if fails env IncrementSelect then 1 else failed_auth_attempts u + 1)"

text \<open>The row \<open>incrementFailedAuthAttempts\<close> writes over the row \<open>u\<close>.\<close>

definition bump :: "env \<Rightarrow> user_row \<Rightarrow> user_row" where
  "bump env u = u\<lparr>failed_auth_attempts := attempts_after env u,
                  last_failed_auth := Some (now env),
                  status := (if attempts_after env u \<ge> 5 then Locked else Active)\<rparr>"

definition lock_event :: "uid \<Rightarrow> SecurityLog" where
  "lock_event userId =
     \<lparr>log_user_id = userId, event_type = ''account_locked'', log_severity = Critical\<rparr>"

text \<open>
  A sequence of PIN verifications for one user, each with its own environment (clock and
  store outcomes) and its own PIN.
\<close>

fun verifyPins :: "uid \<Rightarrow> (env \<times> string) list \<Rightarrow> world \<Rightarrow> bool list \<times> world" where
  "verifyPins userId [] w = ([], w)"
| "verifyPins userId ((env, pin) # rest) w =
     (case verifyPin env userId pin w of
        (ok, w') \<Rightarrow> (case verifyPins userId rest w' of (oks, w'') \<Rightarrow> (ok # oks, w'')))"

text \<open>
  An attempt whose digest differs from the one of \<open>u\<close>, and whose reads and update of the
  user's row succeed. Whether its inserts into the security log succeed is left open.
\<close>

definition wrong_pin_for :: "user_row \<Rightarrow> env \<times> string \<Rightarrow> bool" where
  "wrong_pin_for u a =
     (\<not> fails (fst a) VerifyPinSelect \<and> \<not> fails (fst a) IncrementSelect
      \<and> \<not> fails (fst a) IncrementUpdate \<and> hashPin (fst a) (snd a) \<noteq> pin_hash u)"

text \<open>
  The \<^verbatim>\<open>account_locked\<close> events such attempts append, starting from the counter \<open>c\<close>:
  one for each attempt that brings the counter to 5 or more and whose insert succeeds.
\<close>

fun lock_events :: "uid \<Rightarrow> nat \<Rightarrow> (env \<times> string) list \<Rightarrow> SecurityLog list" where
  "lock_events userId c [] = []"
| "lock_events userId c (a # rest) =
     (if c + 1 \<ge> 5 \<and> \<not> fails (fst a) AuthLogInsert then [lock_event userId] else [])
     @ lock_events userId (c + 1) rest"

subsection \<open>The outcome of \<open>processTransaction\<close>\<close>

text \<open>The constraints of the \<^verbatim>\<open>transactions\<close> table, as \<open>insert_transaction\<close> tests them.\<close>

definition insert_ok :: "env \<Rightarrow> uid \<Rightarrow> nat \<Rightarrow> real \<Rightarrow> world \<Rightarrow> bool" where
  "insert_ok env userId deviceId amt w =
     (\<not> fails env TransactionInsert \<and> amt > 0 \<and> users w userId \<noteq> None
      \<and> list_ex (\<lambda>d. dev_id d = deviceId) (nfc_devices w))"

text \<open>The row a successful \<open>processTransaction\<close> stores.\<close>

definition stored_row :: "env \<Rightarrow> TransactionRequest \<Rightarrow> world \<Rightarrow> tx_row" where
  "stored_row env request w =
     (let riskScore = calculateRiskScore env request w;
          st = determineTransactionStatus riskScore
      in \<lparr>tx_id = length (transactions w), user_id = r_userId request,
          device_id = r_deviceId request, amount = r_amount request,
          currency = (case r_currency request of
                        None \<Rightarrow> ''USD''
                      | Some c \<Rightarrow> if c = [] then ''USD'' else c),
          merchant_id = r_merchantId request, merchant_name = r_merchantName request,
          tx_status = st, risk_score = riskScore,
          decline_reason = (if st = Declined then Some ''High risk score'' else None),
          signature = generateTransactionSignature env (r_userId request) (r_amount request)
                        (r_merchantId request) (now env),
          created_at = now env\<rparr>)"

text \<open>The store after a successful \<open>processTransaction\<close>.\<close>

definition after_insert :: "env \<Rightarrow> TransactionRequest \<Rightarrow> world \<Rightarrow> world" where
  "after_insert env request w =
     (let data = stored_row env request w;
          w6 = w\<lparr>transactions := transactions w @ [data],
                 trace := trace w @ [RiskScoring, AccountStatusCheck, DailyLimitCheck,
                                     StatusDecision, Persistence, AuditEmission]\<rparr>;
          w7 = logSecurityEvent env TxLogInsert (r_userId request) ''transaction_processed''
                 (if risk_score data > 70 then High else Low) w6
      in if tx_status data = Approved
         then updateDeviceLastUsed env (r_deviceId request) (mark DeviceLastUsed w7)
         else w7)"

subsection \<open>The order of the steps\<close>

text \<open>The order in which \<open>handlePayment\<close> and \<open>processTransaction\<close> enter the steps.\<close>

definition pipeline_order :: "step list" where
  "pipeline_order =
     [PinVerification, DeviceResolution, RiskScoring, AccountStatusCheck, DailyLimitCheck,
      StatusDecision, Persistence, AuditEmission, DeviceLastUsed]"

text \<open>
  How many steps of \<open>pipeline_order\<close> a payment has entered when it stops with the error:
  the last of them is the step that raised it.
\<close>

definition steps_entered :: "error \<Rightarrow> nat" where
  "steps_entered e =
     (case e of
        InvalidPin \<Rightarrow> 1
      | NfcReadFailed \<Rightarrow> 2
      | AccountInactive \<Rightarrow> 4
      | DailyLimitExceeded \<Rightarrow> 5
      | AuthFailed \<Rightarrow> 0
      | StoreError c \<Rightarrow>
          (case c of
             RegisterInsert \<Rightarrow> 2
           | AccountStatusSelect \<Rightarrow> 4
           | TransactionInsert \<Rightarrow> 7
           | _ \<Rightarrow> 0))"

definition steps_of_outcome :: "(error + Transaction) option \<Rightarrow> nat" where
  "steps_of_outcome r =
     (case r of
        None \<Rightarrow> 0
      | Some (Inl e) \<Rightarrow> steps_entered e
      | Some (Inr t) \<Rightarrow> if t_status t = Approved then 9 else 8)"

subsection \<open>The risk engine as the specification words it\<close>








subsection \<open>Example states\<close>

definition env0 :: env where
  "env0 = \<lparr>now = 1000000, todayStart = 0, fails = (\<lambda>c. False), hashPin = rev,
           generateTransactionSignature = (\<lambda>u a m t. u @ m)\<rparr>"

text \<open>The two history reads of the risk engine fail; every other call succeeds.\<close>

definition env_blind :: env where
  "env_blind = env0\<lparr>fails := (\<lambda>c. c = DailyTotalSelect \<or> c = RecentSelect)\<rparr>"

definition alice :: user_row where
  "alice = \<lparr>email = ''alice@example.com'', pin_hash = ''4321'', daily_limit = Some 1000,
            status = Active, failed_auth_attempts = 0, last_failed_auth = None\<rparr>"

definition bob :: user_row where
  "bob = \<lparr>email = ''bob@example.com'', pin_hash = ''8765'', daily_limit = None,
          status = Suspended, failed_auth_attempts = 2, last_failed_auth = Some 5\<rparr>"

definition carol :: user_row where
  "carol = \<lparr>email = ''carol@example.com'', pin_hash = ''1111'', daily_limit = Some 1000,
            status = Active, failed_auth_attempts = 4, last_failed_auth = Some 7\<rparr>"

definition w_base :: world where
  "w_base = \<lparr>users = (\<lambda>k. if k = ''alice'' then Some alice
                      else if k = ''bob'' then Some bob
                      else if k = ''carol'' then Some carol else None),
         nfc_devices = [], transactions = [], security_logs = [], trace = []\<rparr>"

definition dev_a :: NFCDevice where
  "dev_a = \<lparr>dev_id = 0, dev_userId = ''alice'', deviceUid = ''TAG-A'',
            deviceName = ''Device 1'', isActive = True, lastUsed = None\<rparr>"

definition tx_900 :: tx_row where
  "tx_900 = \<lparr>tx_id = 0, user_id = ''alice'', device_id = 0, amount = 900, currency = ''USD'',
             merchant_id = ''M1'', merchant_name = ''Shop'', tx_status = Approved,
             risk_score = 30, decline_reason = None, signature = ''s'', created_at = 500000\<rparr>"

text \<open>Alice has a device and has spent 900 today.\<close>

definition w_spent :: world where
  "w_spent = w_base\<lparr>nfc_devices := [dev_a], transactions := [tx_900]\<rparr>"

text \<open>Alice's only device has been deactivated.\<close>

definition w_off :: world where
  "w_off = w_base\<lparr>nfc_devices := [dev_a\<lparr>isActive := False\<rparr>]\<rparr>"

definition form_a :: payment_form where
  "form_a = \<lparr>f_user = Some ''alice'', f_pin = ''1234'', f_amount = 200,
             f_merchantName = ''Shop'', f_devices = [dev_a], f_tag = Some ''TAG-A''\<rparr>"

definition form_b :: payment_form where
  "form_b = \<lparr>f_user = Some ''bob'', f_pin = ''5678'', f_amount = 10,
             f_merchantName = ''Shop'', f_devices = [], f_tag = Some ''TAG-B''\<rparr>"

text \<open>Dave has a limit of 5000, a device, and paid 600 to M1 ten seconds ago.\<close>

definition dave :: user_row where
  "dave = \<lparr>email = ''dave@example.com'', pin_hash = ''2222'', daily_limit = Some 5000,
           status = Active, failed_auth_attempts = 0, last_failed_auth = None\<rparr>"

definition dev_d :: NFCDevice where
  "dev_d = \<lparr>dev_id = 0, dev_userId = ''dave'', deviceUid = ''TAG-D'',
            deviceName = ''Device 1'', isActive = True, lastUsed = None\<rparr>"

definition tx_600 :: tx_row where
  "tx_600 = \<lparr>tx_id = 0, user_id = ''dave'', device_id = 0, amount = 600, currency = ''USD'',
             merchant_id = ''M1'', merchant_name = ''Shop'', tx_status = Approved,
             risk_score = 30, decline_reason = None, signature = ''s'', created_at = 990000\<rparr>"

definition w_dave :: world where
  "w_dave = \<lparr>users = (\<lambda>k. if k = ''dave'' then Some dave else None),
         nfc_devices = [dev_d], transactions = [tx_600], security_logs = [], trace = []\<rparr>"

definition req_d :: TransactionRequest where
  "req_d = \<lparr>r_userId = ''dave'', r_deviceId = 0, r_amount = 600, r_merchantId = ''M1'',
            r_merchantName = ''Shop'', r_currency = None\<rparr>"

definition form_d :: payment_form where
  "form_d = \<lparr>f_user = Some ''dave'', f_pin = ''2222'', f_amount = 600,
             f_merchantName = ''Shop'', f_devices = [dev_d], f_tag = Some ''TAG-D''\<rparr>"

text \<open>Five attempts with PINs that are not Alice's.\<close>

definition five_wrong :: "(env \<times> string) list" where
  "five_wrong = [(env0, ''0000''), (env0, ''0001''), (env0, ''0002''), (env0, ''0003''),
                 (env0, ''0004'')]"

text \<open>The read of the PIN digest fails; and every call of the store fails.\<close>

definition env_noread :: env where
  "env_noread = env0\<lparr>fails := (\<lambda>c. c = VerifyPinSelect)\<rparr>"

definition env_down :: env where
  "env_down = env0\<lparr>fails := (\<lambda>c. True)\<rparr>"









text \<open>Dave's device has been deactivated, and the form has loaded his devices.\<close>

definition w_dave_off :: world where
  "w_dave_off = w_dave\<lparr>nfc_devices := [dev_d\<lparr>isActive := False\<rparr>], transactions := []\<rparr>"

definition form_d_off :: payment_form where
  "form_d_off = form_d\<lparr>f_amount := 25, f_devices := [dev_d\<lparr>isActive := False\<rparr>]\<rparr>"

text \<open>The read of the counter fails; and the inserts into the security log fail.\<close>

definition env_nocount :: env where
  "env_nocount = env0\<lparr>fails := (\<lambda>c. c = IncrementSelect)\<rparr>"

definition env_nolog :: env where
  "env_nolog = env0\<lparr>fails := (\<lambda>c. c = AuthLogInsert)\<rparr>"

section \<open>What each operation reads and writes\<close>

lemma logSecurityEvent_frame [simp]:
  "users (logSecurityEvent env c u e s w) = users w"
  "nfc_devices (logSecurityEvent env c u e s w) = nfc_devices w"
  "transactions (logSecurityEvent env c u e s w) = transactions w"
  "trace (logSecurityEvent env c u e s w) = trace w"
  by (simp_all add: logSecurityEvent_def split: option.splits)

lemma logSecurityEvent_logs:
  "security_logs (logSecurityEvent env c u e s w) =
     security_logs w @ (if fails env c \<or> users w u = None then []
                        else [\<lparr>log_user_id = u, event_type = e, log_severity = s\<rparr>])"
  by (simp add: logSecurityEvent_def split: option.splits)

lemma update_user_frame [simp]:
  "nfc_devices (update_user env c u f w) = nfc_devices w"
  "transactions (update_user env c u f w) = transactions w"
  "security_logs (update_user env c u f w) = security_logs w"
  "trace (update_user env c u f w) = trace w"
  by (simp_all add: update_user_def split: option.splits)

lemma update_user_users:
  "users (update_user env c u f w) =
     (if fails env c then users w
      else case users w u of None \<Rightarrow> users w | Some r \<Rightarrow> (users w)(u := Some (f r)))"
  by (simp add: update_user_def split: option.splits)

lemma mark_frame [simp]:
  "users (mark s w) = users w"
  "nfc_devices (mark s w) = nfc_devices w"
  "transactions (mark s w) = transactions w"
  "security_logs (mark s w) = security_logs w"
  "trace (mark s w) = trace w @ [s]"
  by (simp_all add: mark_def)

lemma increment_frame [simp]:
  "nfc_devices (incrementFailedAuthAttempts env u w) = nfc_devices w"
  "transactions (incrementFailedAuthAttempts env u w) = transactions w"
  "trace (incrementFailedAuthAttempts env u w) = trace w"
  by (simp_all add: incrementFailedAuthAttempts_def Let_def)

lemma verifyPin_frame [simp]:
  "nfc_devices (snd (verifyPin env u p w)) = nfc_devices w"
  "transactions (snd (verifyPin env u p w)) = transactions w"
  "trace (snd (verifyPin env u p w)) = trace w"
  by (simp_all add: verifyPin_def Let_def split: option.splits)

lemma verifyPin_True: "verifyPin env u p w = (True, w') \<Longrightarrow> w' = w"
  by (auto simp add: verifyPin_def Let_def split: option.splits if_splits)

lemma increment_users:
  assumes "users w userId = Some u"
  shows "users (incrementFailedAuthAttempts env userId w) =
           (if fails env IncrementUpdate then users w
            else (users w)(userId := Some (bump env u)))"
  using assms
  by (simp add: incrementFailedAuthAttempts_def Let_def select_user_def update_user_users
      bump_def attempts_after_def)

lemma increment_logs:
  assumes "users w userId = Some u"
  shows "security_logs (incrementFailedAuthAttempts env userId w) =
           security_logs w @ (if attempts_after env u \<ge> 5 \<and> \<not> fails env AuthLogInsert
                              then [lock_event userId] else [])"
  using assms
  by (simp add: incrementFailedAuthAttempts_def Let_def select_user_def update_user_users
      logSecurityEvent_logs attempts_after_def lock_event_def)

lemma verifyPin_mismatch:
  assumes "users w userId = Some u" "\<not> fails env VerifyPinSelect"
    "pin_hash u \<noteq> hashPin env pin"
  shows "fst (verifyPin env userId pin w) = False"
    and "users (snd (verifyPin env userId pin w)) =
           (if fails env IncrementUpdate then users w
            else (users w)(userId := Some (bump env u)))"
    and "security_logs (snd (verifyPin env userId pin w)) =
           security_logs w
           @ (if fails env AuthLogInsert then []
              else (if attempts_after env u \<ge> 5 then [lock_event userId] else [])
                   @ [\<lparr>log_user_id = userId, event_type = ''invalid_pin'',
                        log_severity = High\<rparr>])"
  using assms
  by (simp_all add: verifyPin_def Let_def select_user_def increment_users
      increment_logs logSecurityEvent_logs)

lemma verifyPin_unreadable:
  assumes "select_user env VerifyPinSelect userId w = None"
  shows "fst (verifyPin env userId pin w) = False"
    and "users (snd (verifyPin env userId pin w)) = users w"
    and "security_logs (snd (verifyPin env userId pin w)) =
           security_logs w @ (if fails env AuthLogInsert \<or> users w userId = None then []
              else [\<lparr>log_user_id = userId, event_type = ''pin_verification_failed'',
                     log_severity = Medium\<rparr>])"
  using assms
  by (simp_all add: verifyPin_def Let_def logSecurityEvent_logs)

lemma wrong_pin_for_bump: "wrong_pin_for (bump env u) = wrong_pin_for u"
  by (simp add: fun_eq_iff wrong_pin_for_def bump_def)

text \<open>Wrong PINs in a row: the counter counts them, and the row is rewritten each time.\<close>

lemma verifyPins_wrong:
  assumes "users w userId = Some u" "list_all (wrong_pin_for u) attempts"
  shows "\<exists>u' new. users (snd (verifyPins userId attempts w)) userId = Some u'
           \<and> pin_hash u' = pin_hash u
           \<and> failed_auth_attempts u' = failed_auth_attempts u + length attempts
           \<and> (attempts \<noteq> [] \<longrightarrow>
                status u' = (if failed_auth_attempts u' \<ge> 5 then Locked else Active))
           \<and> security_logs (snd (verifyPins userId attempts w)) = security_logs w @ new
           \<and> filter (\<lambda>e. event_type e = ''account_locked'') new
               = lock_events userId (failed_auth_attempts u) attempts
           \<and> fst (verifyPins userId attempts w) = replicate (length attempts) False"
  using assms
proof (induction attempts arbitrary: w u)
  case Nil
  then show ?case by simp
next
  case (Cons a rest)
  obtain env pin where a: "a = (env, pin)" by (cases a)
  from Cons.prems(2) have "wrong_pin_for u a" and rest: "list_all (wrong_pin_for u) rest"
    by simp_all
  then have ok: "\<not> fails env VerifyPinSelect" "\<not> fails env IncrementSelect"
      "\<not> fails env IncrementUpdate"
    and ne: "pin_hash u \<noteq> hashPin env pin"
    by (auto simp: wrong_pin_for_def a)
  have att: "attempts_after env u = failed_auth_attempts u + 1"
    using ok(2) by (simp add: attempts_after_def)
  let ?wa = "snd (verifyPin env userId pin w)"
  note vp = verifyPin_mismatch[OF Cons.prems(1) ok(1) ne]
  have u1: "users ?wa userId = Some (bump env u)" using vp(2) ok(3) by simp
  have rest': "list_all (wrong_pin_for (bump env u)) rest"
    using rest by (simp add: wrong_pin_for_bump)
  from Cons.IH[OF u1 rest'] obtain u' new where
    IH: "users (snd (verifyPins userId rest ?wa)) userId = Some u'"
      "pin_hash u' = pin_hash (bump env u)"
      "failed_auth_attempts u' = failed_auth_attempts (bump env u) + length rest"
      "rest \<noteq> [] \<longrightarrow> status u' = (if failed_auth_attempts u' \<ge> 5 then Locked else Active)"
      "security_logs (snd (verifyPins userId rest ?wa)) = security_logs ?wa @ new"
      "filter (\<lambda>e. event_type e = ''account_locked'') new
         = lock_events userId (failed_auth_attempts (bump env u)) rest"
      "fst (verifyPins userId rest ?wa) = replicate (length rest) False"
    by blast
  have split: "verifyPins userId (a # rest) w =
      (fst (verifyPin env userId pin w) # fst (verifyPins userId rest ?wa),
       snd (verifyPins userId rest ?wa))"
    by (simp add: a split: prod.splits)
  let ?new = "(if fails env AuthLogInsert then []
               else (if attempts_after env u \<ge> 5 then [lock_event userId] else [])
                    @ [\<lparr>log_user_id = userId, event_type = ''invalid_pin'',
                         log_severity = High\<rparr>]) @ new"
  have st: "status u' = (if failed_auth_attempts u' \<ge> 5 then Locked else Active)"
  proof (cases rest)
    case Nil
    then have "u' = bump env u" using IH(1) u1 by simp
    then show ?thesis by (simp add: bump_def)
  next
    case (Cons b bs)
    then show ?thesis using IH(4) by simp
  qed
  have 1: "users (snd (verifyPins userId (a # rest) w)) userId = Some u'"
    using IH(1) by (simp add: split)
  have 2: "pin_hash u' = pin_hash u" using IH(2) by (simp add: bump_def)
  have 3: "failed_auth_attempts u' = failed_auth_attempts u + length (a # rest)"
    using IH(3) att by (simp add: bump_def)
  have 5: "security_logs (snd (verifyPins userId (a # rest) w)) = security_logs w @ ?new"
    using IH(5) vp(3) by (simp add: split)
  have 6: "filter (\<lambda>e. event_type e = ''account_locked'') ?new
         = lock_events userId (failed_auth_attempts u) (a # rest)"
    using IH(6) att by (simp add: bump_def lock_event_def a)
  have 7: "fst (verifyPins userId (a # rest) w) = replicate (length (a # rest)) False"
    using IH(7) vp(1) by (simp add: split)
  from 1 2 3 st 5 6 7 show ?case by blast
qed

lemma register_frame [simp]:
  "users (snd (registerNFCDevice env u d n w)) = users w"
  "transactions (snd (registerNFCDevice env u d n w)) = transactions w"
  "trace (snd (registerNFCDevice env u d n w)) = trace w"
  by (simp_all add: registerNFCDevice_def Let_def)

lemma register_Inr:
  assumes "registerNFCDevice env u d n w = (Inr dev, w')"
  shows "nfc_devices w' = nfc_devices w @ [dev]" "dev_userId dev = u" "deviceUid dev = d"
    "isActive dev" "dev_id dev = length (nfc_devices w)"
    "\<not> list_ex (\<lambda>x. deviceUid x = d) (nfc_devices w)"
  using assms
  by (auto simp add: registerNFCDevice_def Let_def split: if_splits)

lemma register_Inl:
  assumes "registerNFCDevice env u d n w = (Inl e, w')"
  shows "w' = w" "e = StoreError RegisterInsert"
  using assms
  by (auto simp add: registerNFCDevice_def Let_def split: if_splits)

lemma touch_frame [simp]:
  "users (updateDeviceLastUsed env d w) = users w"
  "transactions (updateDeviceLastUsed env d w) = transactions w"
  "security_logs (updateDeviceLastUsed env d w) = security_logs w"
  "trace (updateDeviceLastUsed env d w) = trace w"
  "length (nfc_devices (updateDeviceLastUsed env d w)) = length (nfc_devices w)"
  by (simp_all add: updateDeviceLastUsed_def)

lemma getters_trace [simp]:
  "select_user env c u (w\<lparr>trace := t\<rparr>) = select_user env c u w"
  "getRecentTransactions env u m (w\<lparr>trace := t\<rparr>) = getRecentTransactions env u m w"
  "getDailyTransactionTotal env u (w\<lparr>trace := t\<rparr>) = getDailyTransactionTotal env u w"
  "checkAccountStatus env u (w\<lparr>trace := t\<rparr>) = checkAccountStatus env u w"
  by (simp_all add: select_user_def getRecentTransactions_def getDailyTransactionTotal_def
      checkAccountStatus_def)

lemma checks_trace [simp]:
  "checkDailyLimit env u a (w\<lparr>trace := t\<rparr>) = checkDailyLimit env u a w"
  "calculateRiskScore env req (w\<lparr>trace := t\<rparr>) = calculateRiskScore env req w"
  unfolding checkDailyLimit_def calculateRiskScore_def
  by (simp_all only: getters_trace)

lemma getters_cong:
  assumes "users w' = users w" "transactions w' = transactions w"
  shows "select_user env c u w' = select_user env c u w"
    "getRecentTransactions env u m w' = getRecentTransactions env u m w"
    "getDailyTransactionTotal env u w' = getDailyTransactionTotal env u w"
    "checkAccountStatus env u w' = checkAccountStatus env u w"
  using assms
  by (simp_all add: select_user_def getRecentTransactions_def getDailyTransactionTotal_def
      checkAccountStatus_def)

lemma reads_cong:
  assumes "users w' = users w" "transactions w' = transactions w"
  shows "checkAccountStatus env u w' = checkAccountStatus env u w"
    "checkDailyLimit env u a w' = checkDailyLimit env u a w"
    "calculateRiskScore env req w' = calculateRiskScore env req w"
  unfolding checkDailyLimit_def calculateRiskScore_def
  by (simp_all only: getters_cong[OF assms])

lemma insert_transaction_eq:
  "insert_transaction env row w =
     (if insert_ok env (user_id row) (device_id row) (amount row) w
      then (Inr (row\<lparr>tx_id := length (transactions w), created_at := now env\<rparr>),
            w\<lparr>transactions := transactions w
                  @ [row\<lparr>tx_id := length (transactions w), created_at := now env\<rparr>]\<rparr>)
      else (Inl (StoreError TransactionInsert), w))"
  by (simp add: insert_transaction_def insert_ok_def Let_def)

lemma insert_ok_trace [simp]:
  "insert_ok env u d a (w\<lparr>trace := t\<rparr>) = insert_ok env u d a w"
  by (simp add: insert_ok_def)

lemma processTransaction_eq:
  "processTransaction env req w =
     (case checkAccountStatus env (r_userId req) w of
        Some e \<Rightarrow> (Inl e, w\<lparr>trace := trace w @ [RiskScoring, AccountStatusCheck]\<rparr>)
      | None \<Rightarrow>
         (case checkDailyLimit env (r_userId req) (r_amount req) w of
            Some e \<Rightarrow>
              (Inl e, w\<lparr>trace := trace w @ [RiskScoring, AccountStatusCheck, DailyLimitCheck]\<rparr>)
          | None \<Rightarrow>
              if insert_ok env (r_userId req) (r_deviceId req) (r_amount req) w
              then (Inr (toTransaction (stored_row env req w)), after_insert env req w)
              else (Inl (StoreError TransactionInsert),
                    w\<lparr>trace := trace w @ [RiskScoring, AccountStatusCheck, DailyLimitCheck,
                                           StatusDecision, Persistence]\<rparr>)))"
proof (cases "checkAccountStatus env (r_userId req) w")
  case (Some e)
  then show ?thesis by (simp add: processTransaction_def Let_def mark_def)
next
  case None
  note acc = this
  show ?thesis
  proof (cases "checkDailyLimit env (r_userId req) (r_amount req) w")
    case (Some e)
    then show ?thesis using acc by (simp add: processTransaction_def Let_def mark_def)
  next
    case None
    note lim = this
    show ?thesis
    proof (cases "insert_ok env (r_userId req) (r_deviceId req) (r_amount req) w")
      case True
      then show ?thesis using acc lim
        by (simp add: processTransaction_def Let_def insert_transaction_eq stored_row_def
            after_insert_def mark_def)
    next
      case False
      then show ?thesis using acc lim
        by (simp add: processTransaction_def Let_def insert_transaction_eq mark_def)
    qed
  qed
qed

lemma verifyPin_result:
  "fst (verifyPin env userId pin w)
     = (map_option pin_hash (select_user env VerifyPinSelect userId w) = Some (hashPin env pin))"
  by (auto simp add: verifyPin_def Let_def split: option.splits)

lemma verifyPin_trace [simp]:
  "fst (verifyPin env u p (w\<lparr>trace := t\<rparr>)) = fst (verifyPin env u p w)"
  by (simp add: verifyPin_def Let_def split: option.splits)

lemma increment_users_trace [simp]:
  "users (incrementFailedAuthAttempts env u (w\<lparr>trace := t\<rparr>))
     = users (incrementFailedAuthAttempts env u w)"
  by (simp add: incrementFailedAuthAttempts_def Let_def update_user_users split: option.splits)

lemma verifyPin_users_trace [simp]:
  "users (snd (verifyPin env u p (w\<lparr>trace := t\<rparr>))) = users (snd (verifyPin env u p w))"
  by (simp add: verifyPin_def Let_def split: option.splits)

lemma verifyPin_ok_mark:
  assumes "verifyPin env u p (mark s w) = (True, wa)"
  shows "verifyPin env u p w = (True, w)"
proof -
  have "fst (verifyPin env u p w) = True"
    using assms verifyPin_trace[where env=env and u=u and p=p and w=w and t="trace w @ [s]"]
    by (simp add: mark_def)
  then show ?thesis
    using verifyPin_True[of env u p w "snd (verifyPin env u p w)"]
    by (cases "verifyPin env u p w") simp
qed

lemma register_Inr_ok:
  assumes "registerNFCDevice env u d n w = (Inr dev, w')"
  shows "\<not> fails env RegisterInsert"
  using assms by (auto simp add: registerNFCDevice_def Let_def split: if_splits)

section \<open>The risk engine\<close>







section \<open>The outcomes of \<open>processTransaction\<close>\<close>

lemma after_insert_frame:
  "users (after_insert env req w) = users w"
  "transactions (after_insert env req w) = transactions w @ [stored_row env req w]"
  "trace (after_insert env req w) =
     trace w @ take (if tx_status (stored_row env req w) = Approved then 7 else 6)
                    (drop 2 pipeline_order)"
  "length (nfc_devices (after_insert env req w)) = length (nfc_devices w)"
  by (simp_all add: after_insert_def Let_def pipeline_order_def)

lemma stored_row_fields:
  "risk_score (stored_row env req w) = calculateRiskScore env req w"
  "tx_status (stored_row env req w) = determineTransactionStatus (calculateRiskScore env req w)"
  "decline_reason (stored_row env req w) =
     (if determineTransactionStatus (calculateRiskScore env req w) = Declined
      then Some ''High risk score'' else None)"
  "user_id (stored_row env req w) = r_userId req"
  "amount (stored_row env req w) = r_amount req"
  by (simp_all add: stored_row_def Let_def)

lemma processTransaction_Inr:
  assumes "processTransaction env req w = (Inr t, w')"
  shows "t = toTransaction (stored_row env req w)" "w' = after_insert env req w"
    "checkAccountStatus env (r_userId req) w = None"
    "checkDailyLimit env (r_userId req) (r_amount req) w = None"
    "insert_ok env (r_userId req) (r_deviceId req) (r_amount req) w"
  using assms
  by (auto simp add: processTransaction_eq split: option.splits if_splits)

lemma processTransaction_Inl:
  assumes "processTransaction env req w = (Inl e, w')"
  shows "users w' = users w" "nfc_devices w' = nfc_devices w"
    "transactions w' = transactions w" "security_logs w' = security_logs w"
    "trace w' = trace w @ take (steps_entered e - 2) (drop 2 pipeline_order)"
proof -
  consider (a) "checkAccountStatus env (r_userId req) w = Some e"
      "w' = w\<lparr>trace := trace w @ [RiskScoring, AccountStatusCheck]\<rparr>"
    | (b) "checkDailyLimit env (r_userId req) (r_amount req) w = Some e"
      "w' = w\<lparr>trace := trace w @ [RiskScoring, AccountStatusCheck, DailyLimitCheck]\<rparr>"
    | (c) "e = StoreError TransactionInsert"
      "w' = w\<lparr>trace := trace w @ [RiskScoring, AccountStatusCheck, DailyLimitCheck,
                                     StatusDecision, Persistence]\<rparr>"
    using assms by (auto simp add: processTransaction_eq split: option.splits if_splits)
  then have "users w' = users w \<and> nfc_devices w' = nfc_devices w
      \<and> transactions w' = transactions w \<and> security_logs w' = security_logs w
      \<and> trace w' = trace w @ take (steps_entered e - 2) (drop 2 pipeline_order)"
  proof cases
    case a
    from a(1) have "e = AccountInactive \<or> e = StoreError AccountStatusSelect"
      by (auto simp: checkAccountStatus_def split: if_splits option.splits)
    with a(2) show ?thesis by (auto simp: steps_entered_def pipeline_order_def)
  next
    case b
    from b(1) have "e = DailyLimitExceeded"
      by (auto simp: checkDailyLimit_def Let_def split: if_splits)
    with b(2) show ?thesis by (auto simp: steps_entered_def pipeline_order_def)
  next
    case c
    then show ?thesis by (auto simp: steps_entered_def pipeline_order_def)
  qed
  then show "users w' = users w" "nfc_devices w' = nfc_devices w"
    "transactions w' = transactions w" "security_logs w' = security_logs w"
    "trace w' = trace w @ take (steps_entered e - 2) (drop 2 pipeline_order)"
    by simp_all
qed

lemma take_pipeline:
  "[PinVerification, DeviceResolution] @ take (n - 2) (drop 2 pipeline_order)
     = take (max n 2) pipeline_order"
  by (cases "n \<le> 2") (simp_all add: pipeline_order_def max_def take_Cons')

lemma steps_ge2:
  "processTransaction env req w = (Inl e, w') \<Longrightarrow> 2 \<le> steps_entered e"
  by (auto simp add: processTransaction_eq steps_entered_def checkAccountStatus_def
      checkDailyLimit_def Let_def split: option.splits if_splits)

lemma after_processTransaction:
  assumes pt: "processTransaction env req w2 = (r, w4)"
    and w2: "users w2 = users w" "transactions w2 = transactions w"
      "trace w2 = trace w @ [PinVerification, DeviceResolution]"
  shows "trace w4 = trace w @ take (steps_of_outcome (Some r)) pipeline_order
       \<and> users w4 = users w
       \<and> (case r of
             Inl e \<Rightarrow> transactions w4 = transactions w
           | Inr t \<Rightarrow> checkAccountStatus env (r_userId req) w = None
                      \<and> checkDailyLimit env (r_userId req) (r_amount req) w = None
                      \<and> (\<exists>row. transactions w4 = transactions w @ [row]
                            \<and> toTransaction row = t))"
proof (cases r)
  case (Inl e)
  note f = processTransaction_Inl[OF pt[unfolded Inl]]
  have "trace w4 = trace w @ take (max (steps_entered e) 2) pipeline_order"
    using f(5) w2(3) take_pipeline[of "steps_entered e"] by simp
  moreover have "2 \<le> steps_entered e" using steps_ge2[OF pt[unfolded Inl]] .
  ultimately show ?thesis using f(1,3) w2 Inl
    by (simp add: steps_of_outcome_def max_def)
next
  case (Inr t)
  note f = processTransaction_Inr[OF pt[unfolded Inr]]
  have st: "t_status t = tx_status (stored_row env req w2)"
    by (simp add: f(1) toTransaction_def)
  have 1: "trace w4 = trace w @ take (steps_of_outcome (Some r)) pipeline_order"
    using w2(3) take_pipeline[of 9] take_pipeline[of 8]
    by (simp add: f(2) after_insert_frame st steps_of_outcome_def Inr)
  have 2: "users w4 = users w" by (simp add: f(2) after_insert_frame w2)
  have 3: "checkAccountStatus env (r_userId req) w = None"
    "checkDailyLimit env (r_userId req) (r_amount req) w = None"
    using f(3,4) reads_cong[OF w2(1,2)] by simp_all
  have 4: "transactions w4 = transactions w @ [stored_row env req w2]"
    by (simp add: f(2) after_insert_frame w2)
  have "\<exists>row. transactions w4 = transactions w @ [row] \<and> toTransaction row = t"
    using 4 f(1) by blast
  with 1 2 3 show ?thesis by (simp add: Inr)
qed

lemma processTransaction_devices:
  "length (nfc_devices (snd (processTransaction env req w))) = length (nfc_devices w)"
  by (simp add: processTransaction_eq after_insert_frame split: option.splits)

text \<open>
  Whether the security log insert and the last-used update of \<open>processTransaction\<close> fail
  makes no difference to what it returns.
\<close>

lemma unchecked_writes_unseen:
  "fst (processTransaction (env\<lparr>fails := (fails env)(TxLogInsert := a, DeviceTouchUpdate := b)\<rparr>) req w)
     = fst (processTransaction env req w)"
proof -
  let ?env = "env\<lparr>fails := (fails env)(TxLogInsert := a, DeviceTouchUpdate := b)\<rparr>"
  have g: "getDailyTransactionTotal ?env (r_userId req) w = getDailyTransactionTotal env (r_userId req) w"
    "getRecentTransactions ?env (r_userId req) 5 w = getRecentTransactions env (r_userId req) 5 w"
    by (simp_all add: getDailyTransactionTotal_def getRecentTransactions_def)
  have 1: "checkAccountStatus ?env (r_userId req) w = checkAccountStatus env (r_userId req) w"
    by (simp add: checkAccountStatus_def)
  have 2: "checkDailyLimit ?env (r_userId req) (r_amount req) w
         = checkDailyLimit env (r_userId req) (r_amount req) w"
    unfolding checkDailyLimit_def g by (simp add: select_user_def)
  have 3: "insert_ok ?env (r_userId req) (r_deviceId req) (r_amount req) w
         = insert_ok env (r_userId req) (r_deviceId req) (r_amount req) w"
    by (simp add: insert_ok_def)
  have 4: "calculateRiskScore ?env req w = calculateRiskScore env req w"
    unfolding calculateRiskScore_def g by simp
  have 5: "stored_row ?env req w = stored_row env req w"
    unfolding stored_row_def 4 by simp
  show ?thesis
    unfolding processTransaction_eq 1 2 3 5
    by (simp split: option.splits)
qed

section \<open>The outcomes of \<open>handlePayment\<close>\<close>

text \<open>The five ways a payment of a signed-in user can go.\<close>

lemma handlePayment_cases:
  assumes "f_user ui = Some userId"
  obtains
    (pin) wp where
      "verifyPin env userId (f_pin ui) (mark PinVerification w) = (False, wp)"
      "handlePayment env ui w = (Some (Inl InvalidPin), f_devices ui, wp)"
  | (nfc)
      "verifyPin env userId (f_pin ui) (mark PinVerification w) = (True, mark PinVerification w)"
      "f_tag ui = None"
      "handlePayment env ui w
         = (Some (Inl NfcReadFailed), f_devices ui, mark DeviceResolution (mark PinVerification w))"
  | (reg) duid where
      "verifyPin env userId (f_pin ui) (mark PinVerification w) = (True, mark PinVerification w)"
      "f_tag ui = Some duid"
      "find (\<lambda>d. deviceUid d = duid) (f_devices ui) = None"
      "registerNFCDevice env userId duid (''Device '' @ digits (length (f_devices ui) + 1))
         (mark DeviceResolution (mark PinVerification w))
         = (Inl (StoreError RegisterInsert), mark DeviceResolution (mark PinVerification w))"
      "handlePayment env ui w
         = (Some (Inl (StoreError RegisterInsert)), f_devices ui,
            mark DeviceResolution (mark PinVerification w))"
  | (known) duid device r w4 where
      "verifyPin env userId (f_pin ui) (mark PinVerification w) = (True, mark PinVerification w)"
      "f_tag ui = Some duid"
      "find (\<lambda>d. deviceUid d = duid) (f_devices ui) = Some device"
      "processTransaction env
         \<lparr>r_userId = userId, r_deviceId = dev_id device, r_amount = Number (f_amount ui),
          r_merchantId = ''MERCH_'' @ digits (nat (now env)),
          r_merchantName = f_merchantName ui, r_currency = Some ''USD''\<rparr>
         (mark DeviceResolution (mark PinVerification w)) = (r, w4)"
      "handlePayment env ui w = (Some r, f_devices ui, w4)"
  | (fresh) duid device w3 r w4 where
      "verifyPin env userId (f_pin ui) (mark PinVerification w) = (True, mark PinVerification w)"
      "f_tag ui = Some duid"
      "find (\<lambda>d. deviceUid d = duid) (f_devices ui) = None"
      "registerNFCDevice env userId duid (''Device '' @ digits (length (f_devices ui) + 1))
         (mark DeviceResolution (mark PinVerification w)) = (Inr device, w3)"
      "processTransaction env
         \<lparr>r_userId = userId, r_deviceId = dev_id device, r_amount = Number (f_amount ui),
          r_merchantId = ''MERCH_'' @ digits (nat (now env)),
          r_merchantName = f_merchantName ui, r_currency = Some ''USD''\<rparr> w3 = (r, w4)"
      "handlePayment env ui w = (Some r, f_devices ui @ [device], w4)"
proof -
  let ?w0 = "mark PinVerification w"
  obtain ok wp where vp: "verifyPin env userId (f_pin ui) ?w0 = (ok, wp)"
    by (cases "verifyPin env userId (f_pin ui) ?w0")
  show thesis
  proof (cases ok)
    case False
    with vp assms show thesis
      by (intro pin[of wp]) (simp_all add: handlePayment_def)
  next
    case True
    with vp have wp: "wp = ?w0" by (simp add: verifyPin_True)
    have vpT: "verifyPin env userId (f_pin ui) ?w0 = (True, ?w0)"
      using vp True wp by simp
    let ?w2 = "mark DeviceResolution ?w0"
    show thesis
    proof (cases "f_tag ui")
      case None
      with vpT assms show thesis
        by (intro nfc) (simp_all add: handlePayment_def Let_def)
    next
      case (Some duid)
      note tag = this
      show thesis
      proof (cases "find (\<lambda>d. deviceUid d = duid) (f_devices ui)")
        case (Some device)
        obtain r w4 where pt: "processTransaction env
           \<lparr>r_userId = userId, r_deviceId = dev_id device, r_amount = Number (f_amount ui),
            r_merchantId = ''MERCH_'' @ digits (nat (now env)),
            r_merchantName = f_merchantName ui, r_currency = Some ''USD''\<rparr> ?w2 = (r, w4)"
          by (cases "processTransaction env
           \<lparr>r_userId = userId, r_deviceId = dev_id device, r_amount = Number (f_amount ui),
            r_merchantId = ''MERCH_'' @ digits (nat (now env)),
            r_merchantName = f_merchantName ui, r_currency = Some ''USD''\<rparr> ?w2")
        from vpT tag Some pt assms show thesis
          by (intro known[of duid device r w4]) (simp_all add: handlePayment_def Let_def)
      next
        case None
        note nofind = this
        obtain rr w3 where rg: "registerNFCDevice env userId duid
            (''Device '' @ digits (length (f_devices ui) + 1)) ?w2 = (rr, w3)"
          by (cases "registerNFCDevice env userId duid
            (''Device '' @ digits (length (f_devices ui) + 1)) ?w2")
        show thesis
        proof (cases rr)
          case (Inl e)
          with rg have "w3 = ?w2" "e = StoreError RegisterInsert"
            by (auto dest: register_Inl)
          with vpT tag nofind rg Inl assms show thesis
            by (intro reg[of duid]) (simp_all add: handlePayment_def Let_def)
        next
          case (Inr device)
          obtain r w4 where pt: "processTransaction env
             \<lparr>r_userId = userId, r_deviceId = dev_id device, r_amount = Number (f_amount ui),
              r_merchantId = ''MERCH_'' @ digits (nat (now env)),
              r_merchantName = f_merchantName ui, r_currency = Some ''USD''\<rparr> w3 = (r, w4)"
            by (cases "processTransaction env
             \<lparr>r_userId = userId, r_deviceId = dev_id device, r_amount = Number (f_amount ui),
              r_merchantId = ''MERCH_'' @ digits (nat (now env)),
              r_merchantName = f_merchantName ui, r_currency = Some ''USD''\<rparr> w3")
          from vpT tag nofind rg Inr pt assms show thesis
            by (intro fresh[of duid device w3 r w4]) (simp_all add: handlePayment_def Let_def)
        qed
      qed
    qed
  qed
qed

text \<open>What a payment does, case by case.\<close>

lemma handlePayment_summary:
  assumes "f_user ui = Some userId"
  shows "\<exists>r ds w'. handlePayment env ui w = (Some r, ds, w')
           \<and> trace w' = trace w @ take (steps_of_outcome (Some r)) pipeline_order
           \<and> users w' = users (snd (verifyPin env userId (f_pin ui) w))
           \<and> (case r of
                 Inl e \<Rightarrow> transactions w' = transactions w
               | Inr t \<Rightarrow> fst (verifyPin env userId (f_pin ui) w)
                          \<and> checkAccountStatus env userId w = None
                          \<and> checkDailyLimit env userId (Number (f_amount ui)) w = None
                          \<and> f_tag ui \<noteq> None
                          \<and> (\<exists>row. transactions w' = transactions w @ [row]
                                \<and> toTransaction row = t))"
  using assms
proof (cases rule: handlePayment_cases[of ui userId env w])
  case (pin wp)
  have "wp = snd (verifyPin env userId (f_pin ui) (mark PinVerification w))"
    using pin(1) by simp
  then have "trace wp = trace w @ [PinVerification]" "transactions wp = transactions w"
    "users wp = users (snd (verifyPin env userId (f_pin ui) w))"
    by (simp_all add: mark_def)
  then show ?thesis using pin(2)
    by (simp add: steps_of_outcome_def steps_entered_def pipeline_order_def)
next
  case nfc
  note ok = verifyPin_ok_mark[OF nfc(1)]
  show ?thesis using nfc(3) ok
    by (simp add: steps_of_outcome_def steps_entered_def pipeline_order_def)
next
  case (reg duid)
  note ok = verifyPin_ok_mark[OF reg(1)]
  show ?thesis using reg(5) ok
    by (simp add: steps_of_outcome_def steps_entered_def pipeline_order_def)
next
  case (known duid device r w4)
  note ok = verifyPin_ok_mark[OF known(1)]
  have "trace w4 = trace w @ take (steps_of_outcome (Some r)) pipeline_order
       \<and> users w4 = users w
       \<and> (case r of
             Inl e \<Rightarrow> transactions w4 = transactions w
           | Inr t \<Rightarrow> checkAccountStatus env userId w = None
                      \<and> checkDailyLimit env userId (Number (f_amount ui)) w = None
                      \<and> (\<exists>row. transactions w4 = transactions w @ [row]
                            \<and> toTransaction row = t))"
    using after_processTransaction[OF known(4), of w] by (cases r) simp_all
  then show ?thesis using known(2,5) ok by (auto split: sum.splits)
next
  case (fresh duid device w3 r w4)
  note ok = verifyPin_ok_mark[OF fresh(1)]
  have w3: "w3 = snd (registerNFCDevice env userId duid
      (''Device '' @ digits (length (f_devices ui) + 1))
      (mark DeviceResolution (mark PinVerification w)))"
    using fresh(4) by simp
  have "users w3 = users w" "transactions w3 = transactions w"
    "trace w3 = trace w @ [PinVerification, DeviceResolution]"
    unfolding w3 by simp_all
  from after_processTransaction[OF fresh(5) this]
  have "trace w4 = trace w @ take (steps_of_outcome (Some r)) pipeline_order
       \<and> users w4 = users w
       \<and> (case r of
             Inl e \<Rightarrow> transactions w4 = transactions w
           | Inr t \<Rightarrow> checkAccountStatus env userId w = None
                      \<and> checkDailyLimit env userId (Number (f_amount ui)) w = None
                      \<and> (\<exists>row. transactions w4 = transactions w @ [row]
                            \<and> toTransaction row = t))"
    by (cases r) simp_all
  then show ?thesis using fresh(2,6) ok by (auto split: sum.splits)
qed

lemma handlePayment_wrong_pin:
  assumes "f_user ui = Some userId" "\<not> fst (verifyPin env userId (f_pin ui) w)"
  shows "fst (handlePayment env ui w) = Some (Inl InvalidPin)"
  using assms(1)
proof (cases rule: handlePayment_cases[of ui userId env w])
  case (pin wp)
  then show ?thesis by simp
qed (use assms(2) in \<open>auto dest: verifyPin_ok_mark\<close>)

lemma handlePayment_unregistrable:
  assumes "f_user ui = Some userId" "f_tag ui = Some duid"
    "find (\<lambda>d. deviceUid d = duid) (f_devices ui) = None"
    "fails env RegisterInsert \<or> list_ex (\<lambda>d. deviceUid d = duid) (nfc_devices w)"
  shows "\<exists>e. fst (handlePayment env ui w) = Some (Inl e)"
  using assms(1)
proof (cases rule: handlePayment_cases[of ui userId env w])
  case (fresh duid' device wr r wt)
  with assms(2) have d: "duid' = duid" by simp
  from register_Inr(6)[OF fresh(4)] register_Inr_ok[OF fresh(4)] assms(4)
  show ?thesis by (simp add: d)
next
  case (known duid' device r wt)
  with assms(2,3) show ?thesis by simp
qed simp_all

text \<open>
  Device resolution. A tag that no device of the store carries is registered once: the
  form's list and the table each gain one device, owned by the user and active. A tag that
  a device of another user carries is not in the user's list, and its registration fails
  on the unique uid.
\<close>

lemma unknown_tag_registered_once:
  assumes "f_user ui = Some userId" and "fst (verifyPin env userId (f_pin ui) w)"
    and "f_tag ui = Some duid"
    and "find (\<lambda>d. deviceUid d = duid) (f_devices ui) = None"
    and "\<not> list_ex (\<lambda>d. deviceUid d = duid) (nfc_devices w)"
    and "\<not> fails env RegisterInsert" and "users w userId \<noteq> None"
  shows "\<exists>dev. fst (snd (handlePayment env ui w)) = f_devices ui @ [dev]
           \<and> dev_userId dev = userId \<and> deviceUid dev = duid \<and> isActive dev
           \<and> length (nfc_devices (snd (snd (handlePayment env ui w))))
               = Suc (length (nfc_devices w))"
  using assms(1)
proof (cases rule: handlePayment_cases[of ui userId env w])
  case (pin wp)
  with assms(2) show ?thesis
    using verifyPin_trace[where env=env and u=userId and p="f_pin ui" and w=w
        and t="trace w @ [PinVerification]"]
    by (simp add: mark_def)
next
  case nfc
  with assms(3) show ?thesis by simp
next
  case (reg duid')
  with assms(3,5,6,7) show ?thesis
    by (auto simp add: registerNFCDevice_def Let_def)
next
  case (known duid' device r wt)
  with assms(3,4) show ?thesis by simp
next
  case (fresh duid' device wr r wt)
  with assms(3) have d: "duid' = duid" by simp
  note f = register_Inr[OF fresh(4)]
  have "wt = snd (processTransaction env
         \<lparr>r_userId = userId, r_deviceId = dev_id device, r_amount = Number (f_amount ui),
          r_merchantId = ''MERCH_'' @ digits (nat (now env)),
          r_merchantName = f_merchantName ui, r_currency = Some ''USD''\<rparr> wr)"
    using fresh(5) by simp
  then have "length (nfc_devices wt) = length (nfc_devices wr)"
    by (simp add: processTransaction_devices)
  with f fresh(6) show ?thesis by (simp add: d)
qed

lemma foreign_tag_rejected:
  assumes "f_user ui = Some userId" and "f_tag ui = Some duid"
    and "f_devices ui = rev (filter (\<lambda>d. dev_userId d = userId) (nfc_devices w))"
    and "list_ex (\<lambda>d. deviceUid d = duid \<and> dev_userId d \<noteq> userId) (nfc_devices w)"
    and "distinct (map deviceUid (nfc_devices w))"
  shows "\<exists>e. fst (handlePayment env ui w) = Some (Inl e)"
proof -
  from assms(4) obtain other where o: "other \<in> set (nfc_devices w)" "deviceUid other = duid"
    "dev_userId other \<noteq> userId"
    by (auto simp: list_ex_iff)
  have "find (\<lambda>d. deviceUid d = duid) (f_devices ui) = None"
  proof (rule ccontr)
    assume "find (\<lambda>d. deviceUid d = duid) (f_devices ui) \<noteq> None"
    then obtain d where "d \<in> set (f_devices ui)" "deviceUid d = duid"
      by (auto simp: find_None_iff)
    then have d: "d \<in> set (nfc_devices w)" "dev_userId d = userId" "deviceUid d = duid"
      by (simp_all add: assms(3))
    with o assms(5) have "d = other"
      by (auto simp: distinct_map inj_on_def)
    with d o show False by simp
  qed
  moreover have "list_ex (\<lambda>d. deviceUid d = duid) (nfc_devices w)"
    using o by (auto simp: list_ex_iff)
  ultimately show ?thesis
    using handlePayment_unregistrable[OF assms(1,2)] by blast
qed

lemma handlePayment_not_active:
  assumes "f_user ui = Some userId" "users w userId = Some u" "status u \<noteq> Active"
  shows "\<exists>e. fst (handlePayment env ui w) = Some (Inl e)"
proof -
  have "checkAccountStatus env userId w \<noteq> None"
    using assms(2,3) by (simp add: checkAccountStatus_def)
  moreover from handlePayment_summary[OF assms(1), of env w] obtain r ds w' where
    hp: "handlePayment env ui w = (Some r, ds, w')"
    and cs: "case r of
               Inl e \<Rightarrow> transactions w' = transactions w
             | Inr t \<Rightarrow> fst (verifyPin env userId (f_pin ui) w)
                        \<and> checkAccountStatus env userId w = None
                        \<and> checkDailyLimit env userId (Number (f_amount ui)) w = None
                        \<and> f_tag ui \<noteq> None
                        \<and> (\<exists>row. transactions w' = transactions w @ [row]
                              \<and> toTransaction row = t)"
    by blast
  ultimately show ?thesis by (cases r) auto
qed

section \<open>The example states, evaluated\<close>

text \<open>The definitions of the numbers, at literals only.\<close>

lemmas number_eval =
  Number_def [of "numeral k"] Number_def [of "numeral a / numeral b"]
  Number_def [of "- numeral k"] Number_def [of "- (numeral a / numeral b)"]
  Number_def [of 0] Number_def [of 1] Number_def [of "1 / numeral b"]
  Number_def [of "- (1 / numeral b)"] Number_def [of "- 1"]
  exponent_def [of "numeral k"] exponent_def [of "numeral a / numeral b"] exponent_def [of 1]
  exponent_def [of "1 / numeral b"]
  round_even_def [of "numeral k"] round_even_def [of "numeral a / numeral b"]
  round_even_def [of "1 / numeral b"] round_even_def [of 1] round_even_def [of 0]
  pow2_def [of "numeral k"] pow2_def [of "- numeral k"] pow2_def [of 0] pow2_def [of 1]
  log2n.simps [of "numeral k"] log2n.simps [of 0] log2n.simps [of 1] log2n.simps [of "Suc 0"]
  js_add_def js_sub_def
  for k a b

lemmas eval_defs =
  handlePayment_def processTransaction_def verifyPin_def registerNFCDevice_def
  insert_transaction_def checkAccountStatus_def checkDailyLimit_def calculateRiskScore_def
  getRecentTransactions_def getDailyTransactionTotal_def determineTransactionStatus_def
  logSecurityEvent_def updateDeviceLastUsed_def incrementFailedAuthAttempts_def
  update_user_def select_user_def toTransaction_def mark_def Let_def digits.simps
  from_json_def number_eval

lemmas example_defs =
  env0_def env_blind_def alice_def bob_def carol_def dave_def w_base_def w_spent_def w_off_def
  w_dave_def dev_a_def dev_d_def tx_900_def tx_600_def form_a_def form_b_def form_d_def

lemma eval_bob:
  "fst (handlePayment env0 form_b w_base) = Some (Inl AccountInactive)"
  "trace (snd (snd (handlePayment env0 form_b w_base)))
     = [PinVerification, DeviceResolution, RiskScoring, AccountStatusCheck]"
  "map dev_userId (nfc_devices (snd (snd (handlePayment env0 form_b w_base)))) = [''bob'']"
  by (simp_all add: eval_defs example_defs)

lemma eval_alice_limit:
  "fst (handlePayment env0 form_a w_spent) = Some (Inl DailyLimitExceeded)"
  "trace (snd (snd (handlePayment env0 form_a w_spent)))
     = [PinVerification, DeviceResolution, RiskScoring, AccountStatusCheck, DailyLimitCheck]"
  "transactions (snd (snd (handlePayment env0 form_a w_spent))) = [tx_900]"
  by (simp_all add: eval_defs example_defs)

lemma eval_alice_blind:
  "map_option (map_sum id t_status) (fst (handlePayment env_blind form_a w_spent))
     = Some (Inr Approved)"
  "map_option (map_sum id t_riskScore) (fst (handlePayment env_blind form_a w_spent))
     = Some (Inr 0)"
  "map amount (transactions (snd (snd (handlePayment env_blind form_a w_spent)))) = [900, 200]"
  by (simp_all add: eval_defs example_defs)

lemma eval_dave:
  "map_option (map_sum id t_status) (fst (handlePayment env0 form_d w_dave)) = Some (Inr Declined)"
  "map tx_status (transactions (snd (snd (handlePayment env0 form_d w_dave)))) = [Approved, Declined]"
  by (simp_all add: eval_defs example_defs)

lemma five_wrong_ok: "length five_wrong = 5" "list_all (wrong_pin_for alice) five_wrong"
  by (simp_all add: five_wrong_def wrong_pin_for_def env0_def alice_def)

lemma risk_req_d: "calculateRiskScore env0 req_d w_dave = 100"
  by (simp add: eval_defs example_defs req_d_def)

lemma processTransaction_req_d:
  "processTransaction env0 req_d w_dave = (Inr (toTransaction (stored_row env0 req_d w_dave)), after_insert env0 req_d w_dave)"
  by (simp add: processTransaction_eq checkAccountStatus_def checkDailyLimit_def select_user_def
      getDailyTransactionTotal_def insert_ok_def env0_def req_d_def w_dave_def dave_def dev_d_def
      tx_600_def number_eval Let_def)

section \<open>The order of the steps of a payment\<close>

text \<open>
  Claim C1, as amended. A payment of a signed-in user enters the steps in the order of
  \<open>pipeline_order\<close>: PIN verification, device resolution, risk scoring, account-status
  check, daily-limit check, status decision, persistence, audit emission, and the device's
  last-used update. The steps it has entered are a prefix of that list. When it stops
  with an error, the step that raised the error is the last one entered
  (\<open>steps_entered\<close>), so no later step runs; when a transaction is returned, all steps
  have run, the last one only for an approved transaction. Device resolution and risk
  scoring come before the account-status and daily-limit checks.
\<close>

theorem steps_run_in_source_order:
  assumes "f_user ui = Some userId"
  shows "fst (handlePayment env ui w) \<noteq> None
       \<and> trace (snd (snd (handlePayment env ui w)))
           = trace w @ take (steps_of_outcome (fst (handlePayment env ui w))) pipeline_order"
  using handlePayment_summary[OF assms, of env w] by auto

theorem steps_run_in_source_order_witness:
  "fst (handlePayment env0 form_a w_spent) = Some (Inl DailyLimitExceeded)
   \<and> trace (snd (snd (handlePayment env0 form_a w_spent))) = take 5 pipeline_order"
  using steps_run_in_source_order [of form_a "''alice''" env0 w_spent] eval_alice_limit(1)
  by (simp add: steps_of_outcome_def steps_entered_def form_a_def w_spent_def w_base_def)

text \<open>
  Claim C1 as stated puts the account-status check before device resolution and before
  risk scoring. Bob's account is suspended and his PIN is right: the payment fails at the
  account-status check, after device resolution has registered the unknown tag as his
  device and after risk scoring has run.
\<close>

theorem account_check_after_device_and_risk_counterexample:
  "status bob = Suspended
   \<and> fst (handlePayment env0 form_b w_base) = Some (Inl AccountInactive)
   \<and> trace (snd (snd (handlePayment env0 form_b w_base)))
       = [PinVerification, DeviceResolution, RiskScoring, AccountStatusCheck]
   \<and> nfc_devices w_base = []
   \<and> map dev_userId (nfc_devices (snd (snd (handlePayment env0 form_b w_base)))) = [''bob'']"
  by (simp add: eval_bob) (simp add: bob_def w_base_def)

section \<open>The risk score\<close>




section \<open>The status of a stored transaction\<close>

text \<open>
  Claim C3. Whenever \<open>processTransaction\<close> returns a transaction, its risk score is the
  one \<open>calculateRiskScore\<close> computed, its status is \<open>declined\<close> for a score of 80 or
  more, \<open>pending\<close> for a score from 50 to 79 and \<open>approved\<close> below 50, its decline
  reason is \<^verbatim>\<open>High risk score\<close> when it is declined and absent otherwise, and the row
  appended to the store carries the same three values.
\<close>

theorem status_follows_risk_score:
  assumes "processTransaction env request w = (Inr t, w')"
  shows "t_riskScore t = calculateRiskScore env request w
       \<and> t_status t = (if t_riskScore t \<ge> 80 then Declined
                        else if t_riskScore t \<ge> 50 then Pending else Approved)
       \<and> t_declineReason t = (if t_status t = Declined then Some ''High risk score'' else None)
       \<and> (\<exists>row. transactions w' = transactions w @ [row] \<and> toTransaction row = t
                 \<and> tx_status row = t_status t \<and> risk_score row = t_riskScore t
                 \<and> decline_reason row = t_declineReason t)"
proof -
  note r = processTransaction_Inr[OF assms]
  have t: "t_riskScore t = calculateRiskScore env request w"
    "t_status t = determineTransactionStatus (calculateRiskScore env request w)"
    "t_declineReason t = (if t_status t = Declined then Some ''High risk score'' else None)"
    by (simp_all add: r(1) toTransaction_def stored_row_fields)
  have "transactions w' = transactions w @ [stored_row env request w]"
    by (simp add: r(2) after_insert_frame)
  moreover have "toTransaction (stored_row env request w) = t" by (simp add: r(1))
  moreover have "tx_status (stored_row env request w) = t_status t"
    "risk_score (stored_row env request w) = t_riskScore t"
    "decline_reason (stored_row env request w) = t_declineReason t"
    by (simp_all add: r(1) toTransaction_def)
  ultimately have "\<exists>row. transactions w' = transactions w @ [row] \<and> toTransaction row = t
                 \<and> tx_status row = t_status t \<and> risk_score row = t_riskScore t
                 \<and> decline_reason row = t_declineReason t"
    by blast
  with t show ?thesis by (simp add: determineTransactionStatus_def)
qed

theorem status_follows_risk_score_witness:
  "processTransaction env0 req_d w_dave
     = (Inr (toTransaction (stored_row env0 req_d w_dave)), after_insert env0 req_d w_dave)
   \<and> t_riskScore (toTransaction (stored_row env0 req_d w_dave)) = 100
   \<and> t_status (toTransaction (stored_row env0 req_d w_dave)) = Declined
   \<and> t_declineReason (toTransaction (stored_row env0 req_d w_dave)) = Some ''High risk score''"
  using status_follows_risk_score [OF processTransaction_req_d] processTransaction_req_d
    risk_req_d
  by simp

section \<open>Failed checks persist nothing\<close>

text \<open>
  Of the checks the payment performs the following holds. Whenever the outcome is an
  error, the table of transactions is unchanged. The outcome is an error when PIN
  verification fails (then it is \<open>InvalidPin\<close>), when the account-status check fails, when
  the tag cannot be read, when the tag is not among the form's devices and cannot be
  registered (the insert fails or the uid is taken, as it is for a device of another
  user), and when the daily-limit check fails. A payment that returns a transaction,
  whatever its status, has appended exactly that transaction.
\<close>

lemma performed_checks_persist_nothing:
  assumes "f_user ui = Some userId"
  shows "(\<forall>e. fst (handlePayment env ui w) = Some (Inl e) \<longrightarrow>
            transactions (snd (snd (handlePayment env ui w))) = transactions w)
       \<and> (\<not> fst (verifyPin env userId (f_pin ui) w) \<longrightarrow>
            fst (handlePayment env ui w) = Some (Inl InvalidPin))
       \<and> (checkAccountStatus env userId w \<noteq> None \<longrightarrow>
            (\<exists>e. fst (handlePayment env ui w) = Some (Inl e)))
       \<and> (f_tag ui = None \<longrightarrow> (\<exists>e. fst (handlePayment env ui w) = Some (Inl e)))
       \<and> (\<forall>duid. f_tag ui = Some duid
              \<and> find (\<lambda>d. deviceUid d = duid) (f_devices ui) = None
              \<and> (fails env RegisterInsert \<or> list_ex (\<lambda>d. deviceUid d = duid) (nfc_devices w))
            \<longrightarrow> (\<exists>e. fst (handlePayment env ui w) = Some (Inl e)))
       \<and> (checkDailyLimit env userId (Number (f_amount ui)) w \<noteq> None \<longrightarrow>
            (\<exists>e. fst (handlePayment env ui w) = Some (Inl e)))
       \<and> (\<forall>t. fst (handlePayment env ui w) = Some (Inr t) \<longrightarrow>
            (\<exists>row. transactions (snd (snd (handlePayment env ui w))) = transactions w @ [row]
                   \<and> toTransaction row = t))"
proof -
  from handlePayment_summary[OF assms, of env w] obtain r ds w' where
    hp: "handlePayment env ui w = (Some r, ds, w')"
    and cs: "case r of
               Inl e \<Rightarrow> transactions w' = transactions w
             | Inr t \<Rightarrow> fst (verifyPin env userId (f_pin ui) w)
                        \<and> checkAccountStatus env userId w = None
                        \<and> checkDailyLimit env userId (Number (f_amount ui)) w = None
                        \<and> f_tag ui \<noteq> None
                        \<and> (\<exists>row. transactions w' = transactions w @ [row]
                              \<and> toTransaction row = t)"
    by blast
  have 1: "\<forall>e. fst (handlePayment env ui w) = Some (Inl e) \<longrightarrow>
            transactions (snd (snd (handlePayment env ui w))) = transactions w"
    using hp cs by auto
  have 2: "\<not> fst (verifyPin env userId (f_pin ui) w) \<longrightarrow>
            fst (handlePayment env ui w) = Some (Inl InvalidPin)"
    using handlePayment_wrong_pin[OF assms] by blast
  have 3: "checkAccountStatus env userId w \<noteq> None \<longrightarrow>
            (\<exists>e. fst (handlePayment env ui w) = Some (Inl e))"
    using hp cs by (cases r) auto
  have 4: "f_tag ui = None \<longrightarrow> (\<exists>e. fst (handlePayment env ui w) = Some (Inl e))"
    using hp cs by (cases r) auto
  have 5: "\<forall>duid. f_tag ui = Some duid
              \<and> find (\<lambda>d. deviceUid d = duid) (f_devices ui) = None
              \<and> (fails env RegisterInsert \<or> list_ex (\<lambda>d. deviceUid d = duid) (nfc_devices w))
            \<longrightarrow> (\<exists>e. fst (handlePayment env ui w) = Some (Inl e))"
    using handlePayment_unregistrable[OF assms] by blast
  have 6: "checkDailyLimit env userId (Number (f_amount ui)) w \<noteq> None \<longrightarrow>
            (\<exists>e. fst (handlePayment env ui w) = Some (Inl e))"
    using hp cs by (cases r) auto
  have 7: "\<forall>t. fst (handlePayment env ui w) = Some (Inr t) \<longrightarrow>
            (\<exists>row. transactions (snd (snd (handlePayment env ui w))) = transactions w @ [row]
                   \<and> toTransaction row = t)"
    using hp cs by auto
  from 1 2 3 4 5 6 7 show ?thesis by blast
qed

text \<open>
  Claim C4 does not hold of the code: among the device checks it names is the one for an
  inactive device, and the payment never reads \<open>isActive\<close>. Dave's only device is
  deactivated and \<open>verifyDeviceOwnership\<close> returns false for it; his payment of 25 with
  that device and the right PIN returns no error, and an approved transaction is stored in
  the table, which was empty.
\<close>

theorem inactive_device_payment_is_persisted:
  "map isActive (nfc_devices w_dave_off) = [False]
   \<and> f_tag form_d_off = Some ''TAG-D''
   \<and> map deviceUid (nfc_devices w_dave_off) = [''TAG-D'']
   \<and> f_devices form_d_off = nfc_devices w_dave_off
   \<and> verifyDeviceOwnership env0 ''TAG-D'' ''dave'' w_dave_off = False
   \<and> transactions w_dave_off = []
   \<and> map_option (map_sum id t_status) (fst (handlePayment env0 form_d_off w_dave_off))
       = Some (Inr Approved)
   \<and> map (\<lambda>t. (user_id t, device_id t, amount t, tx_status t))
        (transactions (snd (snd (handlePayment env0 form_d_off w_dave_off))))
       = [(''dave'', 0, 25, Approved)]"
  by (simp add: eval_defs example_defs w_dave_off_def form_d_off_def verifyDeviceOwnership_def)

section \<open>A PIN verification that fails\<close>

text \<open>
  Claim C5, as amended. When the user's row is read and the digest of the supplied PIN
  differs from the stored one, \<open>verifyPin\<close> returns false. Unless the update of the row
  fails, it writes the counter \<open>attempts_after\<close> (the counter plus one, or 1 when the
  increment's own read of the counter fails), the time, and the status \<open>locked\<close> when
  that counter is 5 or more and \<open>active\<close> otherwise; when the update fails the row stays
  as it was. Unless the insert into the security log fails, it appends an
  \<^verbatim>\<open>invalid_pin\<close> event of severity \<open>high\<close>, after an \<^verbatim>\<open>account_locked\<close> event of
  severity \<open>critical\<close> when the counter written is 5 or more; when the insert fails it
  appends nothing. When the user's row cannot be read (the read fails or there is no
  row), it returns false, leaves every user row as it was, and appends a
  \<^verbatim>\<open>pin_verification_failed\<close> event of severity \<open>medium\<close> if the row exists and the
  insert succeeds, and nothing otherwise. It returns true exactly when the row is read
  and the digests are equal.
\<close>

theorem verifyPin_failure_modes:
  "(users w userId = Some u \<and> \<not> fails env VerifyPinSelect \<and> pin_hash u \<noteq> hashPin env pin \<longrightarrow>
      fst (verifyPin env userId pin w) = False
      \<and> users (snd (verifyPin env userId pin w)) userId
          = Some (if fails env IncrementUpdate then u
                  else u\<lparr>failed_auth_attempts := attempts_after env u,
                         last_failed_auth := Some (now env),
                         status := (if attempts_after env u \<ge> 5 then Locked else Active)\<rparr>)
      \<and> security_logs (snd (verifyPin env userId pin w))
          = security_logs w
            @ (if fails env AuthLogInsert then []
               else (if attempts_after env u \<ge> 5 then [lock_event userId] else [])
                    @ [\<lparr>log_user_id = userId, event_type = ''invalid_pin'',
                         log_severity = High\<rparr>]))
   \<and> (select_user env VerifyPinSelect userId w = None \<longrightarrow>
      fst (verifyPin env userId pin w) = False
      \<and> users (snd (verifyPin env userId pin w)) = users w
      \<and> security_logs (snd (verifyPin env userId pin w))
          = security_logs w
            @ (if fails env AuthLogInsert \<or> users w userId = None then []
               else [\<lparr>log_user_id = userId, event_type = ''pin_verification_failed'',
                      log_severity = Medium\<rparr>]))
   \<and> fst (verifyPin env userId pin w)
       = (map_option pin_hash (select_user env VerifyPinSelect userId w)
            = Some (hashPin env pin))"
proof -
  have "users w userId = Some u \<and> \<not> fails env VerifyPinSelect \<and> pin_hash u \<noteq> hashPin env pin \<longrightarrow>
      fst (verifyPin env userId pin w) = False
      \<and> users (snd (verifyPin env userId pin w)) userId
          = Some (if fails env IncrementUpdate then u
                  else u\<lparr>failed_auth_attempts := attempts_after env u,
                         last_failed_auth := Some (now env),
                         status := (if attempts_after env u \<ge> 5 then Locked else Active)\<rparr>)
      \<and> security_logs (snd (verifyPin env userId pin w))
          = security_logs w
            @ (if fails env AuthLogInsert then []
               else (if attempts_after env u \<ge> 5 then [lock_event userId] else [])
                    @ [\<lparr>log_user_id = userId, event_type = ''invalid_pin'',
                         log_severity = High\<rparr>])"
    using verifyPin_mismatch[of w userId u env pin]
    by (simp add: bump_def)
  moreover have "select_user env VerifyPinSelect userId w = None \<longrightarrow>
      fst (verifyPin env userId pin w) = False
      \<and> users (snd (verifyPin env userId pin w)) = users w
      \<and> security_logs (snd (verifyPin env userId pin w))
          = security_logs w
            @ (if fails env AuthLogInsert \<or> users w userId = None then []
               else [\<lparr>log_user_id = userId, event_type = ''pin_verification_failed'',
                      log_severity = Medium\<rparr>])"
    using verifyPin_unreadable[of env userId w pin] by simp
  moreover have "fst (verifyPin env userId pin w)
       = (map_option pin_hash (select_user env VerifyPinSelect userId w)
            = Some (hashPin env pin))"
    by (rule verifyPin_result)
  ultimately show ?thesis by blast
qed

theorem verifyPin_failure_modes_witness:
  "users w_base ''alice'' = Some alice \<and> \<not> fails env0 VerifyPinSelect
   \<and> pin_hash alice \<noteq> hashPin env0 ''0000''
   \<and> fst (verifyPin env0 ''alice'' ''0000'' w_base) = False
   \<and> map_option failed_auth_attempts (users (snd (verifyPin env0 ''alice'' ''0000'' w_base)) ''alice'')
       = Some 1
   \<and> security_logs (snd (verifyPin env0 ''alice'' ''0000'' w_base))
       = [\<lparr>log_user_id = ''alice'', event_type = ''invalid_pin'', log_severity = High\<rparr>]
   \<and> users w_base ''carol'' = Some carol \<and> \<not> fails env_nocount VerifyPinSelect
   \<and> pin_hash carol \<noteq> hashPin env_nocount ''0000''
   \<and> map_option failed_auth_attempts
        (users (snd (verifyPin env_nocount ''carol'' ''0000'' w_base)) ''carol'') = Some 1
   \<and> security_logs (snd (verifyPin env_nolog ''carol'' ''0000'' w_base)) = []
   \<and> select_user env_noread VerifyPinSelect ''carol'' w_base = None
   \<and> fst (verifyPin env_noread ''carol'' ''1111'' w_base) = False
   \<and> map_option failed_auth_attempts (users (snd (verifyPin env_noread ''carol'' ''1111'' w_base)) ''carol'')
       = Some 4
   \<and> security_logs (snd (verifyPin env_noread ''carol'' ''1111'' w_base))
       = [\<lparr>log_user_id = ''carol'', event_type = ''pin_verification_failed'',
           log_severity = Medium\<rparr>]"
  using verifyPin_failure_modes [of w_base "''alice''" alice env0 "''0000''"]
    verifyPin_failure_modes [of w_base "''carol''" carol env_nocount "''0000''"]
    verifyPin_failure_modes [of w_base "''carol''" carol env_nolog "''0000''"]
    verifyPin_failure_modes [of w_base "''carol''" carol env_noread "''1111''"]
  by (simp add: w_base_def alice_def carol_def env0_def env_noread_def env_nocount_def
      env_nolog_def attempts_after_def select_user_def)

text \<open>
  Claim C5 as stated asks for an \<^verbatim>\<open>invalid_pin\<close> event of severity \<open>medium\<close>, and for
  an increment also when the digest is missing. A wrong PIN for Alice logs
  \<^verbatim>\<open>invalid_pin\<close> with severity \<open>high\<close>; when the read of Carol's digest fails, the
  verification fails, her counter stays at 4 and no \<^verbatim>\<open>invalid_pin\<close> event is logged.
\<close>

theorem invalid_pin_is_high_severity_counterexample:
  "pin_hash alice \<noteq> hashPin env0 ''0000''
   \<and> security_logs (snd (verifyPin env0 ''alice'' ''0000'' w_base))
       = [\<lparr>log_user_id = ''alice'', event_type = ''invalid_pin'', log_severity = High\<rparr>]
   \<and> \<not> list_ex (\<lambda>e. event_type e = ''invalid_pin'' \<and> log_severity e = Medium)
          (security_logs (snd (verifyPin env0 ''alice'' ''0000'' w_base)))
   \<and> fails env_noread VerifyPinSelect
   \<and> fst (verifyPin env_noread ''carol'' ''1111'' w_base) = False
   \<and> map_option failed_auth_attempts (users w_base ''carol'') = Some 4
   \<and> map_option failed_auth_attempts
        (users (snd (verifyPin env_noread ''carol'' ''1111'' w_base)) ''carol'') = Some 4
   \<and> \<not> list_ex (\<lambda>e. event_type e = ''invalid_pin'')
          (security_logs (snd (verifyPin env_noread ''carol'' ''1111'' w_base)))"
  by (simp add: eval_defs example_defs env_noread_def)

section \<open>A PIN verification that succeeds\<close>

text \<open>
  Claim C6 does not hold of the code. Carol's counter is 4; a verification with her own
  PIN returns true and leaves the store, and so the counter, as it was. A successful
  \<open>signIn\<close> in the same state resets the counter to 0. After the successful verification
  one wrong PIN locks the account.
\<close>

theorem successful_pin_keeps_counter:
  "hashPin env0 ''1111'' = pin_hash carol
   \<and> map_option failed_auth_attempts (users w_base ''carol'') = Some 4
   \<and> verifyPin env0 ''carol'' ''1111'' w_base = (True, w_base)
   \<and> map_option failed_auth_attempts
        (users (snd (verifyPin env0 ''carol'' ''1111'' w_base)) ''carol'') = Some 4
   \<and> map_option failed_auth_attempts
        (users (snd (signIn env0 False (Some ''carol'') w_base)) ''carol'') = Some 0
   \<and> map_option status
        (users (snd (verifyPin env0 ''carol'' ''0000''
                       (snd (verifyPin env0 ''carol'' ''1111'' w_base)))) ''carol'') = Some Locked"
  by (simp add: eval_defs example_defs signIn_def resetFailedAuthAttempts_def)

section \<open>Five failed PIN verifications\<close>

text \<open>
  Claim C7, as amended. Take a user whose counter is 0 and five PIN verifications in a
  row, each with a wrong PIN and each reading and updating the user's row successfully
  (\<open>wrong_pin_for\<close>). All five return false, and afterwards the status is \<open>locked\<close>. The
  five verifications append one \<^verbatim>\<open>account_locked\<close> event, of severity \<open>critical\<close>, when
  the inserts into the security log of the fifth verification succeed, and none when they
  fail. A payment of that user attempted in the state the five verifications leave ends
  in an error, whatever PIN is supplied and whatever the store does. \<open>verifyPin\<close> itself
  does not look at the status: in that state it returns true for the right PIN, and
  changes nothing.
\<close>

theorem five_failures_lock_account:
  assumes "users w userId = Some u" and "failed_auth_attempts u = 0"
    and "length attempts = 5" and "list_all (wrong_pin_for u) attempts"
  shows "fst (verifyPins userId attempts w) = replicate 5 False
       \<and> map_option status (users (snd (verifyPins userId attempts w)) userId) = Some Locked
       \<and> (\<exists>new. security_logs (snd (verifyPins userId attempts w)) = security_logs w @ new
                 \<and> filter (\<lambda>e. event_type e = ''account_locked'') new
                     = (if fails (fst (attempts ! 4)) AuthLogInsert then []
                        else [lock_event userId]))
       \<and> (\<forall>env ui. f_user ui = Some userId \<longrightarrow>
             (\<exists>e. fst (handlePayment env ui (snd (verifyPins userId attempts w)))
                     = Some (Inl e)))
       \<and> (\<forall>env pin. \<not> fails env VerifyPinSelect \<and> hashPin env pin = pin_hash u \<longrightarrow>
             verifyPin env userId pin (snd (verifyPins userId attempts w))
               = (True, snd (verifyPins userId attempts w)))"
proof -
  let ?w5 = "snd (verifyPins userId attempts w)"
  from verifyPins_wrong[OF assms(1,4)] obtain u' new where
    u': "users ?w5 userId = Some u'" and ph: "pin_hash u' = pin_hash u"
    and cnt: "failed_auth_attempts u' = failed_auth_attempts u + length attempts"
    and st: "attempts \<noteq> [] \<longrightarrow> status u' = (if failed_auth_attempts u' \<ge> 5 then Locked else Active)"
    and logs: "security_logs ?w5 = security_logs w @ new"
    and locks: "filter (\<lambda>e. event_type e = ''account_locked'') new
               = lock_events userId (failed_auth_attempts u) attempts"
    and res: "fst (verifyPins userId attempts w) = replicate (length attempts) False"
    by blast
  have ne: "attempts \<noteq> []" using assms(3) by auto
  have locked: "status u' = Locked" using st ne cnt assms(2,3) by simp
  have 1: "fst (verifyPins userId attempts w) = replicate 5 False"
    using res assms(3) by simp
  have 2: "map_option status (users ?w5 userId) = Some Locked"
    using u' locked by simp
  from assms(3) obtain a b c d e where five: "attempts = [a, b, c, d, e]"
    by (auto simp add: numeral_eq_Suc length_Suc_conv)
  have "filter (\<lambda>e. event_type e = ''account_locked'') new
          = (if fails (fst (attempts ! 4)) AuthLogInsert then [] else [lock_event userId])"
    using locks assms(2) by (simp add: five)
  with logs have 3: "\<exists>new. security_logs ?w5 = security_logs w @ new
                 \<and> filter (\<lambda>e. event_type e = ''account_locked'') new
                     = (if fails (fst (attempts ! 4)) AuthLogInsert then []
                        else [lock_event userId])"
    by blast
  have 4: "\<forall>env ui. f_user ui = Some userId \<longrightarrow>
             (\<exists>e. fst (handlePayment env ui ?w5) = Some (Inl e))"
    using handlePayment_not_active[OF _ u'] locked by simp
  have 5: "\<forall>env pin. \<not> fails env VerifyPinSelect \<and> hashPin env pin = pin_hash u \<longrightarrow>
             verifyPin env userId pin ?w5 = (True, ?w5)"
    using u' ph by (simp add: verifyPin_def Let_def select_user_def)
  from 1 2 3 4 5 show ?thesis by blast
qed

theorem five_failures_lock_account_witness:
  "users w_spent ''alice'' = Some alice \<and> failed_auth_attempts alice = 0
   \<and> length five_wrong = 5 \<and> list_all (wrong_pin_for alice) five_wrong
   \<and> map_option status (users (snd (verifyPins ''alice'' five_wrong w_spent)) ''alice'')
       = Some Locked
   \<and> (\<exists>new. security_logs (snd (verifyPins ''alice'' five_wrong w_spent))
               = security_logs w_spent @ new
            \<and> filter (\<lambda>e. event_type e = ''account_locked'') new = [lock_event ''alice''])
   \<and> (\<exists>e. fst (handlePayment env0 form_a (snd (verifyPins ''alice'' five_wrong w_spent)))
             = Some (Inl e))
   \<and> fst (verifyPin env0 ''alice'' ''1234'' (snd (verifyPins ''alice'' five_wrong w_spent)))"
proof -
  have a: "users w_spent ''alice'' = Some alice" "failed_auth_attempts alice = 0"
    by (simp_all add: w_spent_def w_base_def alice_def)
  note t = five_failures_lock_account [OF a five_wrong_ok]
  have "f_user form_a = Some ''alice''" by (simp add: form_a_def)
  moreover have "\<not> fails env0 VerifyPinSelect \<and> hashPin env0 ''1234'' = pin_hash alice"
    by (simp add: env0_def alice_def)
  moreover have "\<not> fails (fst (five_wrong ! 4)) AuthLogInsert"
    by (simp add: five_wrong_def env0_def)
  ultimately show ?thesis using t a five_wrong_ok by auto
qed

text \<open>
  Claim C7 as stated says the sixth verification fails whatever the PIN, and that any
  five failures in a row emit one \<^verbatim>\<open>account_locked\<close> event. After five wrong PINs
  Alice's account is locked, and \<open>verifyPin\<close> with her own PIN returns true. Carol's
  counter is 4 when she verifies her PIN successfully; the five wrong PINs that follow
  emit five \<^verbatim>\<open>account_locked\<close> events.
\<close>

theorem locked_account_passes_pin_check_counterexample:
  "fst (verifyPins ''alice'' five_wrong w_base) = [False, False, False, False, False]
   \<and> map_option status (users (snd (verifyPins ''alice'' five_wrong w_base)) ''alice'')
       = Some Locked
   \<and> hashPin env0 ''1234'' = pin_hash alice
   \<and> fst (verifyPin env0 ''alice'' ''1234'' (snd (verifyPins ''alice'' five_wrong w_base))) = True
   \<and> fst (verifyPins ''carol'' ((env0, ''1111'') # five_wrong) w_base)
       = [True, False, False, False, False, False]
   \<and> length (filter (\<lambda>e. event_type e = ''account_locked'')
         (security_logs (snd (verifyPins ''carol'' ((env0, ''1111'') # five_wrong) w_base)))) = 5"
  by (simp add: five_wrong_def eval_defs example_defs)

section \<open>A deactivated device\<close>

text \<open>
  Claim C8 does not hold of the code for a device that is known, owned by the user and
  inactive. Alice's only device is deactivated, the form has loaded her devices, and
  \<open>verifyDeviceOwnership\<close> returns false for it; a payment of 10 with that device and the
  right PIN is approved and stored. (The other two cases of the claim are the lemmas
  \<open>unknown_tag_registered_once\<close> and \<open>foreign_tag_rejected\<close> above.)
\<close>

theorem deactivated_device_still_pays:
  "map isActive (nfc_devices w_off) = [False]
   \<and> map dev_userId (nfc_devices w_off) = [''alice'']
   \<and> map deviceUid (nfc_devices w_off) = [''TAG-A'']
   \<and> loadDevices env0 (Some ''alice'') [] w_off = nfc_devices w_off
   \<and> verifyDeviceOwnership env0 ''TAG-A'' ''alice'' w_off = False
   \<and> map_option (map_sum id t_status)
        (fst (handlePayment env0 (form_a\<lparr>f_devices := nfc_devices w_off, f_amount := 10\<rparr>) w_off))
       = Some (Inr Approved)
   \<and> map tx_status
        (transactions (snd (snd (handlePayment env0
           (form_a\<lparr>f_devices := nfc_devices w_off, f_amount := 10\<rparr>) w_off))))
       = [Approved]"
  by (simp add: eval_defs example_defs verifyDeviceOwnership_def loadDevices_def
      getUserDevices_def)

section \<open>Store calls that fail\<close>

text \<open>
  Claim C9, as amended. A failed read of the account status makes \<open>processTransaction\<close>
  return the store's error, and a failed insert of the transaction makes it return an
  error; neither stores a transaction. A failed insert of a device makes
  \<open>registerNFCDevice\<close> return the store's error, and a failed read of the PIN digest makes
  \<open>verifyPin\<close> return false. A failed read of the daily total is replaced by 0, a failed
  read of the recent history by the empty list, and a failed read of the daily limit by
  the limit 1000; with both history reads failing the risk score depends on the amount
  alone. The sums are the rounded sums of the program. The results of the security log
  insert and of the last-used update are not inspected: whether they fail does not change
  what \<open>processTransaction\<close> returns.
\<close>

theorem store_failures_surface_or_default:
  "(fails env AccountStatusSelect \<longrightarrow>
      fst (processTransaction env req w) = Inl (StoreError AccountStatusSelect)
      \<and> transactions (snd (processTransaction env req w)) = transactions w)
   \<and> (fails env TransactionInsert \<longrightarrow>
      (\<exists>e. fst (processTransaction env req w) = Inl e)
      \<and> transactions (snd (processTransaction env req w)) = transactions w)
   \<and> (fails env RegisterInsert \<longrightarrow>
      registerNFCDevice env userId duid name w = (Inl (StoreError RegisterInsert), w))
   \<and> (fails env VerifyPinSelect \<longrightarrow> fst (verifyPin env userId pin w) = False)
   \<and> (fails env DailyTotalSelect \<longrightarrow> getDailyTransactionTotal env userId w = 0)
   \<and> (fails env RecentSelect \<longrightarrow> getRecentTransactions env userId minutes w = [])
   \<and> (fails env DailyLimitSelect \<longrightarrow>
      checkDailyLimit env userId amt w
        = (if js_add (getDailyTransactionTotal env userId w) amt > 1000
           then Some DailyLimitExceeded else None))
   \<and> (fails env DailyTotalSelect \<and> fails env RecentSelect \<longrightarrow>
      calculateRiskScore env req w
        = (if r_amount req > 500 then 30 else 0)
          + (if js_add 0 (r_amount req) > 1000 then 50 else 0))
   \<and> fst (processTransaction
             (env\<lparr>fails := (fails env)(TxLogInsert := a, DeviceTouchUpdate := b)\<rparr>) req w)
       = fst (processTransaction env req w)"
proof -
  have 1: "fails env AccountStatusSelect \<longrightarrow>
      fst (processTransaction env req w) = Inl (StoreError AccountStatusSelect)
      \<and> transactions (snd (processTransaction env req w)) = transactions w"
    by (simp add: processTransaction_eq checkAccountStatus_def)
  have 2: "fails env TransactionInsert \<longrightarrow>
      (\<exists>e. fst (processTransaction env req w) = Inl e)
      \<and> transactions (snd (processTransaction env req w)) = transactions w"
    by (auto simp add: processTransaction_eq insert_ok_def split: option.splits)
  have 3: "fails env RegisterInsert \<longrightarrow>
      registerNFCDevice env userId duid name w = (Inl (StoreError RegisterInsert), w)"
    by (simp add: registerNFCDevice_def)
  have 4: "fails env VerifyPinSelect \<longrightarrow> fst (verifyPin env userId pin w) = False"
    by (simp add: verifyPin_result select_user_def)
  have 5: "fails env DailyTotalSelect \<longrightarrow> getDailyTransactionTotal env userId w = 0"
    by (simp add: getDailyTransactionTotal_def)
  have 6: "fails env RecentSelect \<longrightarrow> getRecentTransactions env userId minutes w = []"
    by (simp add: getRecentTransactions_def)
  have 7: "fails env DailyLimitSelect \<longrightarrow>
      checkDailyLimit env userId amt w
        = (if js_add (getDailyTransactionTotal env userId w) amt > 1000
           then Some DailyLimitExceeded else None)"
    by (simp add: checkDailyLimit_def select_user_def)
  have 8: "fails env DailyTotalSelect \<and> fails env RecentSelect \<longrightarrow>
      calculateRiskScore env req w
        = (if r_amount req > 500 then 30 else 0)
          + (if js_add 0 (r_amount req) > 1000 then 50 else 0)"
    by (simp add: calculateRiskScore_def getDailyTransactionTotal_def getRecentTransactions_def)
  have 9: "fst (processTransaction
             (env\<lparr>fails := (fails env)(TxLogInsert := a, DeviceTouchUpdate := b)\<rparr>) req w)
       = fst (processTransaction env req w)"
    by (rule unchecked_writes_unseen)
  from 1 2 3 4 5 6 7 8 9 show ?thesis by blast
qed

theorem store_failures_surface_or_default_witness:
  "fails env_down AccountStatusSelect \<and> fails env_down TransactionInsert
   \<and> fails env_down RegisterInsert \<and> fails env_down VerifyPinSelect
   \<and> fails env_down DailyTotalSelect \<and> fails env_down RecentSelect
   \<and> fails env_down DailyLimitSelect
   \<and> fst (processTransaction env_down req_d w_dave) = Inl (StoreError AccountStatusSelect)
   \<and> transactions (snd (processTransaction env_down req_d w_dave)) = transactions w_dave
   \<and> registerNFCDevice env_down ''dave'' ''TAG-X'' ''Device 2'' w_dave
       = (Inl (StoreError RegisterInsert), w_dave)
   \<and> fst (verifyPin env_down ''dave'' ''2222'' w_dave) = False
   \<and> getDailyTransactionTotal env_down ''dave'' w_dave = 0
   \<and> getRecentTransactions env_down ''dave'' 5 w_dave = []
   \<and> checkDailyLimit env_down ''dave'' 600 w_dave = None
   \<and> calculateRiskScore env_down req_d w_dave = 30"
  using store_failures_surface_or_default
    [where env = env_down and req = req_d and w = w_dave and userId = "''dave''"
       and duid = "''TAG-X''" and name = "''Device 2''" and pin = "''2222''" and minutes = 5
       and amt = 600]
  by (simp add: env_down_def env0_def req_d_def number_eval)

text \<open>
  Claim C9 as stated says that no failed read is replaced by a default. Alice has spent
  900 of her limit of 1000 today. With a working store a payment of 200 is refused; when
  the two history reads fail the same payment is approved with risk score 0 and stored.
\<close>

theorem failed_history_reads_are_defaulted_counterexample:
  "fails env_blind DailyTotalSelect \<and> fails env_blind RecentSelect
   \<and> fst (handlePayment env0 form_a w_spent) = Some (Inl DailyLimitExceeded)
   \<and> map_option (map_sum id t_status) (fst (handlePayment env_blind form_a w_spent))
       = Some (Inr Approved)
   \<and> map_option (map_sum id t_riskScore) (fst (handlePayment env_blind form_a w_spent))
       = Some (Inr 0)
   \<and> map amount (transactions (snd (snd (handlePayment env_blind form_a w_spent))))
       = [900, 200]"
  by (simp add: eval_alice_limit eval_alice_blind) (simp add: env_blind_def)

section \<open>Failed authentication and the account status\<close>

text \<open>
  Claim C10, as amended. \<open>incrementFailedAuthAttempts\<close> writes the user's status whatever
  it was before, unless its update fails: \<open>active\<close> while the counter it writes
  (\<open>attempts_after\<close>: the counter plus one, or 1 when its read of the counter fails) is
  below 5, and \<open>locked\<close> otherwise; when the update fails the row stays as it was. The
  failed attempts that reach it are a \<open>verifyPin\<close> that reads the user's row and finds
  another digest, and a \<open>signIn\<close> that the identity provider rejects while naming the
  user. So one such wrong PIN turns a suspended account with a counter below 4 into an
  active one. A \<open>verifyPin\<close> whose read of the row fails, and a rejected \<open>signIn\<close> whose
  answer names no user, fail and leave every user row as it was.
\<close>

theorem failed_attempt_rewrites_status:
  assumes "users w userId = Some u"
  shows "users (incrementFailedAuthAttempts env userId w) userId
           = Some (if fails env IncrementUpdate then u
                   else u\<lparr>failed_auth_attempts := attempts_after env u,
                          last_failed_auth := Some (now env),
                          status := (if attempts_after env u < 5 then Active else Locked)\<rparr>)
       \<and> (\<not> fails env VerifyPinSelect \<and> pin_hash u \<noteq> hashPin env pin \<longrightarrow>
            fst (verifyPin env userId pin w) = False
            \<and> users (snd (verifyPin env userId pin w))
                = users (incrementFailedAuthAttempts env userId w))
       \<and> (fails env VerifyPinSelect \<longrightarrow>
            fst (verifyPin env userId pin w) = False
            \<and> users (snd (verifyPin env userId pin w)) = users w)
       \<and> fst (signIn env True (Some userId) w) = Inl AuthFailed
       \<and> users (snd (signIn env True (Some userId) w))
           = users (incrementFailedAuthAttempts env userId w)
       \<and> signIn env True None w = (Inl AuthFailed, w)"
proof -
  have "users (incrementFailedAuthAttempts env userId w) userId
          = Some (if fails env IncrementUpdate then u else bump env u)"
    using assms by (simp add: increment_users)
  moreover have "bump env u
      = u\<lparr>failed_auth_attempts := attempts_after env u,
           last_failed_auth := Some (now env),
           status := (if attempts_after env u < 5 then Active else Locked)\<rparr>"
    by (simp add: bump_def)
  ultimately have 1: "users (incrementFailedAuthAttempts env userId w) userId
           = Some (if fails env IncrementUpdate then u
                   else u\<lparr>failed_auth_attempts := attempts_after env u,
                          last_failed_auth := Some (now env),
                          status := (if attempts_after env u < 5 then Active else Locked)\<rparr>)"
    by simp
  have 2: "\<not> fails env VerifyPinSelect \<and> pin_hash u \<noteq> hashPin env pin \<longrightarrow>
      fst (verifyPin env userId pin w) = False
      \<and> users (snd (verifyPin env userId pin w))
          = users (incrementFailedAuthAttempts env userId w)"
    using assms by (simp add: verifyPin_def Let_def select_user_def)
  have 3: "fails env VerifyPinSelect \<longrightarrow>
      fst (verifyPin env userId pin w) = False
      \<and> users (snd (verifyPin env userId pin w)) = users w"
    by (simp add: verifyPin_def Let_def select_user_def)
  have 4: "fst (signIn env True (Some userId) w) = Inl AuthFailed"
    "users (snd (signIn env True (Some userId) w))
       = users (incrementFailedAuthAttempts env userId w)"
    "signIn env True None w = (Inl AuthFailed, w)"
    by (simp_all add: signIn_def)
  from 1 2 3 4 show ?thesis by blast
qed

theorem failed_attempt_rewrites_status_witness:
  "users w_base ''bob'' = Some bob \<and> status bob = Suspended
   \<and> \<not> fails env0 VerifyPinSelect \<and> pin_hash bob \<noteq> hashPin env0 ''0000''
   \<and> map_option status (users (incrementFailedAuthAttempts env0 ''bob'' w_base) ''bob'') = Some Active
   \<and> map_option status (users (snd (verifyPin env0 ''bob'' ''0000'' w_base)) ''bob'') = Some Active
   \<and> map_option status (users (snd (signIn env0 True (Some ''bob'') w_base)) ''bob'') = Some Active
   \<and> users w_base ''carol'' = Some carol
   \<and> map_option status (users (incrementFailedAuthAttempts env0 ''carol'' w_base) ''carol'')
       = Some Locked
   \<and> map_option status (users (incrementFailedAuthAttempts env_nocount ''carol'' w_base) ''carol'')
       = Some Active
   \<and> fails env_noread VerifyPinSelect
   \<and> users (snd (verifyPin env_noread ''bob'' ''0000'' w_base)) = users w_base"
  using failed_attempt_rewrites_status [of w_base "''bob''" bob env0 "''0000''"]
    failed_attempt_rewrites_status [of w_base "''carol''" carol env0 "''0000''"]
    failed_attempt_rewrites_status [of w_base "''carol''" carol env_nocount "''0000''"]
    failed_attempt_rewrites_status [of w_base "''bob''" bob env_noread "''0000''"]
  by (simp add: w_base_def bob_def carol_def env0_def env_nocount_def env_noread_def
      attempts_after_def)

text \<open>
  Claim C10 as stated speaks of every failed authentication attempt, a failed sign-in
  included. Bob's account is suspended and his counter is 2. A sign-in that the identity
  provider rejects without naming a user fails and changes nothing; a PIN verification
  whose read of Bob's row fails returns false and leaves his row as it was. After either
  attempt the account is still suspended.
\<close>

theorem failed_attempt_keeps_suspended_counterexample:
  "map_option status (users w_base ''bob'') = Some Suspended
   \<and> map_option failed_auth_attempts (users w_base ''bob'') = Some 2
   \<and> signIn env0 True None w_base = (Inl AuthFailed, w_base)
   \<and> fails env_noread VerifyPinSelect
   \<and> fst (verifyPin env_noread ''bob'' ''0000'' w_base) = False
   \<and> map_option status (users (snd (verifyPin env_noread ''bob'' ''0000'' w_base)) ''bob'')
       = Some Suspended
   \<and> map_option failed_auth_attempts
        (users (snd (verifyPin env_noread ''bob'' ''0000'' w_base)) ''bob'') = Some 2"
  by (simp add: eval_defs example_defs env_noread_def signIn_def)

end
